theory Spec2Isabelle
  imports Main "HOL-Library.Multiset"
begin

section \<open>Strings\<close>

text \<open>
  Source texts are JavaScript strings; they are modelled as lists of 8-bit code units
  (\<^typ>\<open>string\<close>), offsets as natural numbers. A line break is the single code unit
  \<open>0x0A\<close>.
\<close>

definition substring :: "string \<Rightarrow> nat \<Rightarrow> nat \<Rightarrow> string" where
  \<comment> \<open>\<open>s.substring(a, b)\<close>: both indices are clamped to the length, and swapped when
      \<open>a > b\<close>.\<close>
  "substring s a b = (if a \<le> b then take (b - a) (drop a s) else take (a - b) (drop b s))"

definition substringFrom :: "string \<Rightarrow> nat \<Rightarrow> string" where
  \<comment> \<open>\<open>s.substring(a)\<close>\<close>
  "substringFrom s a = drop a s"

section \<open>Brace matcher\<close>

text \<open>
  \<open>findMatchingBrace(text, openBracePos)\<close>: the loop
  \<open>while (pos < text.length && braceCount > 0)\<close> with its two counters, then
  \<open>braceCount === 0 ? pos - 1 : null\<close>. The three provider classes carry identical
  copies of this method.
\<close>

function scanBraces :: "string \<Rightarrow> nat \<Rightarrow> nat \<Rightarrow> nat option" where
  "scanBraces text pos braceCount =
     (if pos < length text \<and> braceCount > 0 then
        (let c = text ! pos in
         scanBraces text (pos + 1)
           (if c = CHR ''{'' then braceCount + 1
            else if c = CHR ''}'' then braceCount - 1
            else braceCount))
      else if braceCount = 0 then Some (pos - 1) else None)"
  by pat_completeness auto
termination
  by (relation "measure (\<lambda>(text, pos, braceCount). length text - pos)") auto

declare scanBraces.simps [simp del]

definition findMatchingBrace :: "string \<Rightarrow> int \<Rightarrow> nat option" where
  \<comment> \<open>\<open>openBracePos\<close> is an integer: a caller adds the result of \<open>indexOf\<close>, which is
      \<open>-1\<close> when nothing is found. Reading \<open>charAt\<close> at a negative offset yields the
      empty string and changes no counter, so the scan effectively begins at offset
      \<open>max 0 (openBracePos + 1)\<close>.\<close>
  "findMatchingBrace text openBracePos = scanBraces text (nat (openBracePos + 1)) 1"


text \<open>
  The depth counter of the specification: the value of the counter, started at 1 just
  after the opening brace at \<open>openPos\<close>, once every offset before \<open>q\<close> has been read.
\<close>

definition braceVal :: "char \<Rightarrow> int" where
  "braceVal c = (if c = CHR ''{'' then 1 else if c = CHR ''}'' then - 1 else 0)"

definition braceDepth :: "string \<Rightarrow> nat \<Rightarrow> nat \<Rightarrow> int" where
  "braceDepth text openPos q =
     1 + sum_list (map braceVal (take (q - Suc openPos) (drop (Suc openPos) text)))"


section \<open>JavaScript string primitives\<close>

definition isSpace :: "char \<Rightarrow> bool" where
  \<comment> \<open>White space and line terminators as \<open>\s\<close> and \<open>trim\<close> see them, among the
      8-bit code units.\<close>
  "isSpace c = (c \<in> set [CHR 0x09, CHR 0x0A, CHR 0x0B, CHR 0x0C, CHR 0x0D, CHR 0x20, CHR 0xA0])"

definition isWordChar :: "char \<Rightarrow> bool" where
  \<comment> \<open>\<open>\w\<close>: \<open>[A-Za-z0-9_]\<close>\<close>
  "isWordChar c = (let n = (of_char c :: nat) in
     (48 \<le> n \<and> n \<le> 57) \<or> (65 \<le> n \<and> n \<le> 90) \<or> n = 95 \<or> (97 \<le> n \<and> n \<le> 122))"

definition isLineTerminator :: "char \<Rightarrow> bool" where
  "isLineTerminator c = (c = CHR 0x0A \<or> c = CHR 0x0D)"

definition trim :: "string \<Rightarrow> string" where
  "trim s = rev (dropWhile isSpace (rev (dropWhile isSpace s)))"

definition startsWith :: "string \<Rightarrow> string \<Rightarrow> bool" where
  "startsWith s p = (take (length p) s = p)"

definition occursAt :: "string \<Rightarrow> string \<Rightarrow> nat \<Rightarrow> bool" where
  "occursAt s sub i = (i + length sub \<le> length s \<and> take (length sub) (drop i s) = sub)"

definition indexOfFrom :: "string \<Rightarrow> string \<Rightarrow> nat \<Rightarrow> int" where
  \<comment> \<open>\<open>s.indexOf(sub, from)\<close>; \<open>-1\<close> when there is no occurrence.\<close>
  "indexOfFrom s sub from =
     (case List.find (occursAt s sub) [from ..< Suc (length s)] of
        None \<Rightarrow> - 1 | Some i \<Rightarrow> int i)"

definition indexOf :: "string \<Rightarrow> string \<Rightarrow> int" where
  "indexOf s sub = indexOfFrom s sub 0"

definition includesStr :: "string \<Rightarrow> string \<Rightarrow> bool" where
  "includesStr s sub = (indexOf s sub \<noteq> - 1)"

primrec lastIndexUpTo :: "string \<Rightarrow> char \<Rightarrow> nat \<Rightarrow> int" where
  "lastIndexUpTo s c 0 = (if 0 < length s \<and> s ! 0 = c then 0 else - 1)"
| "lastIndexUpTo s c (Suc n) =
     (if Suc n < length s \<and> s ! Suc n = c then int (Suc n) else lastIndexUpTo s c n)"

definition lastIndexOfFrom :: "string \<Rightarrow> char \<Rightarrow> int \<Rightarrow> int" where
  \<comment> \<open>\<open>s.lastIndexOf(c, from)\<close>: the last occurrence at an offset \<open>\<le> from\<close>; a negative
      \<open>from\<close> counts as 0.\<close>
  "lastIndexOfFrom s c from = lastIndexUpTo s c (nat from)"

definition lastIndexOf :: "string \<Rightarrow> char \<Rightarrow> int" where
  "lastIndexOf s c = lastIndexUpTo s c (length s)"

function splitAcc :: "string \<Rightarrow> string \<Rightarrow> string \<Rightarrow> string list" where
  "splitAcc sep acc s =
     (if s = [] then [rev acc]
      else if sep \<noteq> [] \<and> take (length sep) s = sep then rev acc # splitAcc sep [] (drop (length sep) s)
      else splitAcc sep (hd s # acc) (tl s))"
  by pat_completeness auto
termination
  by (relation "measure (\<lambda>(sep, acc, s). length s)") auto

declare splitAcc.simps [simp del]

definition split :: "string \<Rightarrow> string \<Rightarrow> string list" where
  \<comment> \<open>\<open>s.split(sep)\<close> for a non-empty separator\<close>
  "split s sep = splitAcc sep [] s"

fun join :: "string list \<Rightarrow> string \<Rightarrow> string" where
  "join [] sep = []"
| "join [x] sep = x"
| "join (x # y # ys) sep = x @ sep @ join (y # ys) sep"

definition removeAll2 :: "string \<Rightarrow> string \<Rightarrow> string" where
  \<comment> \<open>\<open>s.replace(/sep/g, '')\<close> for a literal \<open>sep\<close>\<close>
  "removeAll2 s sep = concat (split s sep)"

section \<open>Regular expressions\<close>

text \<open>
  The patterns of the source use literals, character classes, greedy and lazy
  repetition of a single class, sequence, alternation, capture groups and the assertions
  \<open>^\<close>, \<open>$\<close> and \<open>\b\<close>. A pattern is matched the way a backtracking engine does it:
  \<open>rmatch\<close> lists, in the order in which backtracking would try them, the states
  (end offset and captures) in which the pattern can finish from a given state; the
  engine's answer is the head of that list.
\<close>

datatype citem = Ch char | Sp | NonSp | Wd

fun inItem :: "citem \<Rightarrow> char \<Rightarrow> bool" where
  "inItem (Ch d) c = (c = d)"
| "inItem Sp c = isSpace c"
| "inItem NonSp c = (\<not> isSpace c)"
| "inItem Wd c = isWordChar c"

datatype cclass = OneOf "citem list" | NoneOf "citem list" | Dot

fun inClass :: "cclass \<Rightarrow> char \<Rightarrow> bool" where
  "inClass (OneOf xs) c = (\<exists>x \<in> set xs. inItem x c)"
| "inClass (NoneOf xs) c = (\<not> (\<exists>x \<in> set xs. inItem x c))"
| "inClass Dot c = (\<not> isLineTerminator c)"

datatype re =
    Lit string
  | Cls cclass
  | Star cclass
  | Plus cclass
  | LazyStar cclass
  | Seq re re
  | Alt re re
  | Grp nat re
  | Bol
  | Eol
  | WordB

type_synonym captures = "nat \<rightharpoonup> nat \<times> nat"

definition runLength :: "cclass \<Rightarrow> string \<Rightarrow> nat \<Rightarrow> nat" where
  "runLength k s i = length (takeWhile (inClass k) (drop i s))"

fun rmatch :: "bool \<Rightarrow> string \<Rightarrow> re \<Rightarrow> nat \<times> captures \<Rightarrow> (nat \<times> captures) list" where
  "rmatch ml s (Lit l) (i, c) =
     (if take (length l) (drop i s) = l then [(i + length l, c)] else [])"
| "rmatch ml s (Cls k) (i, c) =
     (if i < length s \<and> inClass k (s ! i) then [(Suc i, c)] else [])"
| "rmatch ml s (Star k) (i, c) =
     map (\<lambda>j. (j, c)) (rev [i ..< Suc (i + runLength k s i)])"
| "rmatch ml s (Plus k) (i, c) =
     map (\<lambda>j. (j, c)) (rev [Suc i ..< Suc (i + runLength k s i)])"
| "rmatch ml s (LazyStar k) (i, c) =
     map (\<lambda>j. (j, c)) [i ..< Suc (i + runLength k s i)]"
| "rmatch ml s (Seq r1 r2) st = concat (map (rmatch ml s r2) (rmatch ml s r1 st))"
| "rmatch ml s (Alt r1 r2) st = rmatch ml s r1 st @ rmatch ml s r2 st"
| "rmatch ml s (Grp n r) (i, c) =
     map (\<lambda>(e, c'). (e, c'(n \<mapsto> (i, e)))) (rmatch ml s r (i, c))"
| "rmatch ml s Bol (i, c) =
     (if i = 0 \<or> (ml \<and> i \<le> length s \<and> isLineTerminator (s ! (i - 1))) then [(i, c)] else [])"
| "rmatch ml s Eol (i, c) =
     (if i = length s \<or> (ml \<and> i < length s \<and> isLineTerminator (s ! i)) then [(i, c)] else [])"
| "rmatch ml s WordB (i, c) =
     (let a = (0 < i \<and> i \<le> length s \<and> isWordChar (s ! (i - 1)));
          b = (i < length s \<and> isWordChar (s ! i))
      in if a \<noteq> b then [(i, c)] else [])"

record rxmatch =
  index :: nat
  mend :: nat
  groups :: captures

text \<open>
  \<open>regex.exec(s)\<close> with \<open>lastIndex = i\<close>: the leftmost offset from \<open>i\<close> on at which
  the pattern matches; \<open>mend\<close> is \<open>index + match[0].length\<close>.
\<close>

function execFrom :: "bool \<Rightarrow> re \<Rightarrow> string \<Rightarrow> nat \<Rightarrow> rxmatch option" where
  "execFrom ml r s i =
     (if length s < i then None
      else (case rmatch ml s r (i, Map.empty) of
              [] \<Rightarrow> execFrom ml r s (Suc i)
            | (e, c) # _ \<Rightarrow> Some \<lparr>index = i, mend = e, groups = c\<rparr>))"
  by pat_completeness auto
termination
  by (relation "measure (\<lambda>(ml, r, s, i). Suc (length s) - i)") auto

declare execFrom.simps [simp del]

definition matchText :: "string \<Rightarrow> rxmatch \<Rightarrow> string" where
  \<comment> \<open>\<open>match[0]\<close>\<close>
  "matchText s m = substring s (index m) (mend m)"

definition matchLength :: "rxmatch \<Rightarrow> nat" where
  \<comment> \<open>\<open>match[0].length\<close>\<close>
  "matchLength m = mend m - index m"

definition matchGroup :: "string \<Rightarrow> rxmatch \<Rightarrow> nat \<Rightarrow> string" where
  \<comment> \<open>\<open>match[n]\<close>. A group that took no part in the match is \<open>undefined\<close> in the
      source; it is the empty string here. Both are falsy, and the source reads a
      group that may be undefined only through \<open>m[n] ? ... : ...\<close> or \<open>m[n] || ''\<close>.\<close>
  "matchGroup s m n = (case groups m n of None \<Rightarrow> [] | Some (a, b) \<Rightarrow> substring s a b)"


text \<open>
  A match never ends before it starts nor beyond the end of the string; the loop over
  all matches below terminates by this fact.
\<close>

lemma runLength_le: "i + runLength k s i \<le> max i (length s)"
proof -
  have "runLength k s i \<le> length (drop i s)"
    unfolding runLength_def by (rule length_takeWhile_le)
  then show ?thesis by simp
qed

lemma lit_within: "take (length l) (drop i s) = l \<Longrightarrow> i \<le> length s \<Longrightarrow> i + length l \<le> length s"
proof -
  assume a: "take (length l) (drop i s) = l" and b: "i \<le> length s"
  have "length (take (length l) (drop i s)) = length l" using a by simp
  then have "length l \<le> length s - i" by simp
  with b show ?thesis by simp
qed

lemma rmatch_bounds:
  "(e, c') \<in> set (rmatch ml s r (i, c)) \<Longrightarrow> i \<le> length s \<Longrightarrow> i \<le> e \<and> e \<le> length s"
proof (induction r arbitrary: i c e c')
  case (Lit l)
  then show ?case using lit_within[of l i s] by (auto split: if_splits)
next
  case (Star k)
  then show ?case using runLength_le[of i k s] by auto
next
  case (Plus k)
  then show ?case using runLength_le[of i k s] by auto
next
  case (LazyStar k)
  then show ?case using runLength_le[of i k s] by auto
next
  case (Seq r1 r2)
  from Seq.prems(1) obtain m cm where
    m: "(m, cm) \<in> set (rmatch ml s r1 (i, c))" and
    e: "(e, c') \<in> set (rmatch ml s r2 (m, cm))"
    by auto
  from Seq.IH(1)[OF m Seq.prems(2)] have "i \<le> m" "m \<le> length s" by auto
  moreover from Seq.IH(2)[OF e \<open>m \<le> length s\<close>] have "m \<le> e" "e \<le> length s" by auto
  ultimately show ?case by simp
next
  case (Grp n r)
  from Grp.prems(1) obtain c0 where "(e, c0) \<in> set (rmatch ml s r (i, c))" by auto
  from Grp.IH[OF this Grp.prems(2)] show ?case .
qed (auto split: if_splits simp: Let_def)

lemma execFrom_bounds:
  "execFrom ml r s i = Some m \<Longrightarrow> i \<le> index m \<and> index m \<le> mend m \<and> mend m \<le> length s"
proof (induction ml r s i rule: execFrom.induct)
  case (1 ml r s i)
  show ?case
  proof (cases "length s < i")
    case True
    with "1.prems" show ?thesis by (subst (asm) execFrom.simps) simp
  next
    case False
    show ?thesis
    proof (cases "rmatch ml s r (i, Map.empty)")
      case Nil
      with False "1.prems" have "execFrom ml r s (Suc i) = Some m"
        by (subst (asm) execFrom.simps) simp
      from "1.IH"[OF False Nil this] show ?thesis by simp
    next
      case (Cons x xs)
      obtain e c where x: "x = (e, c)" by (cases x)
      with Cons False "1.prems" have m: "m = \<lparr>index = i, mend = e, groups = c\<rparr>"
        by (subst (asm) execFrom.simps) simp
      have "(e, c) \<in> set (rmatch ml s r (i, Map.empty))" using Cons x by simp
      from rmatch_bounds[OF this] False m show ?thesis by simp
    qed
  qed
qed

text \<open>
  \<open>while ((m = regex.exec(s)) !== null) { ... }\<close> with the \<open>g\<close> flag: each call
  resumes at the end of the match before. The loop bodies of the source change neither
  the string nor \<open>lastIndex\<close>, so the loop is a traversal of the list of all matches.
  \<open>exec\<close> does not step over an empty match: the loop would then run forever, which
  is the value \<open>None\<close>.
\<close>

function execAll :: "bool \<Rightarrow> re \<Rightarrow> string \<Rightarrow> nat \<Rightarrow> rxmatch list option" where
  "execAll ml r s lastIndex =
     (case execFrom ml r s lastIndex of
        None \<Rightarrow> Some []
      | Some m \<Rightarrow>
          if mend m \<le> lastIndex then None
          else map_option ((#) m) (execAll ml r s (mend m)))"
  by pat_completeness auto
termination
proof (relation "measure (\<lambda>(ml, r, s, lastIndex). Suc (length s) - lastIndex)")
  show "wf (measure (\<lambda>(ml, r, s, lastIndex). Suc (length s) - lastIndex))" by simp
next
  fix ml r s lastIndex m
  assume "execFrom ml r s lastIndex = Some m" "\<not> mend m \<le> lastIndex"
  then show "((ml, r, s, mend m), (ml, r, s, lastIndex))
        \<in> measure (\<lambda>(ml, r, s, lastIndex). Suc (length s) - lastIndex)"
    using execFrom_bounds[of ml r s lastIndex m] by auto
qed

declare execAll.simps [simp del]

definition exec :: "bool \<Rightarrow> re \<Rightarrow> string \<Rightarrow> rxmatch option" where
  \<comment> \<open>A single \<open>exec\<close> on a fresh regular expression object (\<open>lastIndex = 0\<close>).\<close>
  "exec ml r s = execFrom ml r s 0"

fun seqs :: "re list \<Rightarrow> re" where
  "seqs [] = Lit []"
| "seqs [r] = r"
| "seqs (r # rs) = Seq r (seqs rs)"

definition optional :: "re \<Rightarrow> re" where
  \<comment> \<open>\<open>(...)?\<close>, greedy\<close>
  "optional r = Alt r (Lit [])"

definition ws0 :: re where "ws0 = Star (OneOf [Sp])"
definition ws1 :: re where "ws1 = Plus (OneOf [Sp])"
definition word1 :: re where "word1 = Plus (OneOf [Wd])"
definition notClose0 :: re where "notClose0 = Star (NoneOf [Ch CHR ''}''])"

section \<open>Documents, positions and ranges\<close>

text \<open>
  The editor's \<open>TextDocument\<close>, \<open>Position\<close> and \<open>Range\<close>, for a document whose lines
  end in a single line feed. \<open>positionAt\<close> clamps its offset to the text, \<open>offsetAt\<close>
  its position to the line; the constructor of \<open>Range\<close> orders its two positions.
\<close>

record position =
  line :: nat
  character :: nat

record range =
  start_pos :: position
  end_pos :: position

definition isBefore :: "position \<Rightarrow> position \<Rightarrow> bool" where
  "isBefore p q = (line p < line q \<or> (line p = line q \<and> character p < character q))"

definition isBeforeOrEqual :: "position \<Rightarrow> position \<Rightarrow> bool" where
  "isBeforeOrEqual p q = (line p < line q \<or> (line p = line q \<and> character p \<le> character q))"

definition isAfter :: "position \<Rightarrow> position \<Rightarrow> bool" where
  "isAfter p q = isBefore q p"

definition Range :: "position \<Rightarrow> position \<Rightarrow> range" where
  "Range a b = (if isBefore b a then \<lparr>start_pos = b, end_pos = a\<rparr>
                else \<lparr>start_pos = a, end_pos = b\<rparr>)"

definition containsPosition :: "range \<Rightarrow> position \<Rightarrow> bool" where
  "containsPosition r p = (isBeforeOrEqual (start_pos r) p \<and> isBeforeOrEqual p (end_pos r))"

definition containsRange :: "range \<Rightarrow> range \<Rightarrow> bool" where
  "containsRange r r' = (containsPosition r (start_pos r') \<and> containsPosition r (end_pos r'))"

definition newline :: char where
  "newline = CHR 0x0A"

definition positionAt :: "string \<Rightarrow> nat \<Rightarrow> position" where
  "positionAt text offset =
     (let pre = take offset text in
      \<lparr>line = length (filter (\<lambda>c. c = newline) pre),
       character = length (takeWhile (\<lambda>c. c \<noteq> newline) (rev pre))\<rparr>)"

fun splitLines :: "string \<Rightarrow> string list" where
  "splitLines [] = [[]]"
| "splitLines (c # cs) =
     (if c = newline then [] # splitLines cs
      else (case splitLines cs of [] \<Rightarrow> [[c]] | l # ls \<Rightarrow> (c # l) # ls))"

definition lineText :: "string \<Rightarrow> nat \<Rightarrow> string" where
  \<comment> \<open>\<open>document.lineAt(n).text\<close>, for a line of the document\<close>
  "lineText text n = (let ls = splitLines text in if n < length ls then ls ! n else [])"

definition lineEnd :: "string \<Rightarrow> nat \<Rightarrow> position" where
  \<comment> \<open>\<open>document.lineAt(n).range.end\<close>\<close>
  "lineEnd text n = \<lparr>line = n, character = length (lineText text n)\<rparr>"

definition lineStartOffset :: "string \<Rightarrow> nat \<Rightarrow> nat" where
  "lineStartOffset text n = sum_list (map (\<lambda>l. Suc (length l)) (take n (splitLines text)))"

definition offsetAt :: "string \<Rightarrow> position \<Rightarrow> nat" where
  "offsetAt text p =
     (if line p < length (splitLines text)
      then lineStartOffset text (line p) + min (character p) (length (lineText text (line p)))
      else length text)"

definition getTextIn :: "string \<Rightarrow> range \<Rightarrow> string" where
  \<comment> \<open>\<open>document.getText(range)\<close>\<close>
  "getTextIn text r = substring text (offsetAt text (start_pos r)) (offsetAt text (end_pos r))"

record textDocument =
  uri :: string
  content :: string

type_synonym location = "string \<times> range"


section \<open>Document symbols (outline)\<close>

datatype symbolKind = Namespace | Function | Variable | Array | Object

datatype documentSymbol =
  DocumentSymbol (name: string) (detail: string) (kind: symbolKind)
    (symRange: range) (selectionRange: range) (children: "documentSymbol list")

definition pushChild :: "documentSymbol \<Rightarrow> documentSymbol \<Rightarrow> documentSymbol" where
  \<comment> \<open>\<open>parent.children.push(child)\<close>\<close>
  "pushChild parent child =
     DocumentSymbol (name parent) (detail parent) (kind parent) (symRange parent)
       (selectionRange parent) (children parent @ [child])"

definition withChildren :: "documentSymbol \<Rightarrow> documentSymbol list \<Rightarrow> documentSymbol" where
  "withChildren parent cs =
     DocumentSymbol (name parent) (detail parent) (kind parent) (symRange parent)
       (selectionRange parent) cs"

text \<open>
  The constructor of the editor's \<open>DocumentSymbol\<close> stores its five arguments and an
  empty list of children and then validates the new object: it throws an \<open>Error\<close> when
  the name is falsy (\<open>name must not be falsy\<close>) or when the range does not contain the
  selection range (\<open>selectionRange must be contained in fullRange\<close>). The provider
  catches nothing, so the exception ends the query.

  A computation of the provider has one of three outcomes: it does not terminate
  (\<open>None\<close>), it throws (\<open>Some (Inl e)\<close>) or it returns (\<open>Some (Inr v)\<close>).
  \<open>foldR\<close> is a loop over the list of all matches of a pattern whose body may throw: the
  first exception ends the loop.
\<close>

datatype error = NameMustNotBeFalsy | SelectionRangeNotContained

type_synonym 'a result = "(error + 'a) option"

definition bindR :: "'a result \<Rightarrow> ('a \<Rightarrow> 'b result) \<Rightarrow> 'b result" where
  "bindR x f = (case x of None \<Rightarrow> None | Some (Inl e) \<Rightarrow> Some (Inl e) | Some (Inr v) \<Rightarrow> f v)"

fun foldR :: "('a \<Rightarrow> 'b \<Rightarrow> 'b result) \<Rightarrow> 'a list \<Rightarrow> 'b \<Rightarrow> 'b result" where
  "foldR f [] acc = Some (Inr acc)"
| "foldR f (x # xs) acc = bindR (f x acc) (foldR f xs)"

definition validated :: "documentSymbol \<Rightarrow> documentSymbol result" where
  \<comment> \<open>\<open>DocumentSymbol.validate(this)\<close> at the end of the constructor\<close>
  "validated s =
     (if name s = [] then Some (Inl NameMustNotBeFalsy)
      else if \<not> containsRange (symRange s) (selectionRange s) then Some (Inl SelectionRangeNotContained)
      else Some (Inr s))"

definition ifTruthy :: "nat option \<Rightarrow> (nat \<Rightarrow> 'a) \<Rightarrow> 'a \<Rightarrow> 'a" where
  \<comment> \<open>\<open>x ? f(x) : d\<close> for \<open>x: number | null\<close>\<close>
  "ifTruthy r f d = (case r of None \<Rightarrow> d | Some n \<Rightarrow> if n = 0 then d else f n)"

definition valueDetail :: "string \<Rightarrow> string" where
  \<comment> \<open>\<open>`value: ${value.length > 20 ? value.substring(0, 20) + '...' : value}`\<close>\<close>
  "valueDetail v = ''value: '' @ (if length v > 20 then substring v 0 20 @ ''...'' else v)"

subsection \<open>Local variables and arrays of a procedure\<close>

definition localVarRegex :: re where
  \<comment> \<open>\<open>/set\s+(\w+)\s+(.+)$/gm\<close>\<close>
  "localVarRegex = seqs [Lit ''set'', ws1, Grp 1 word1, ws1, Grp 2 (Plus Dot), Eol]"

definition arraySetRegex :: re where
  \<comment> \<open>\<open>/array\s+set\s+(\w+)\s+{([^}]*)}/gm\<close>\<close>
  "arraySetRegex =
     seqs [Lit ''array'', ws1, Lit ''set'', ws1, Grp 1 word1, ws1, Lit ''{'', Grp 2 notClose0, Lit ''}'']"

definition localVarSymbol :: "string \<Rightarrow> string \<Rightarrow> nat \<Rightarrow> rxmatch \<Rightarrow> documentSymbol" where
  \<comment> \<open>The object that the loop body builds from a match, before it is validated.\<close>
  "localVarSymbol text procBody procBodyStartOffset varMatch =
     (let varName = matchGroup procBody varMatch 1;
          v = trim (matchGroup procBody varMatch 2);
          startPos = positionAt text (procBodyStartOffset + index varMatch);
          endPos = positionAt text (procBodyStartOffset + index varMatch + matchLength varMatch);
          r = Range startPos endPos
      in DocumentSymbol varName (valueDetail v) Variable r r [])"

definition localVarStep ::
  "string \<Rightarrow> string \<Rightarrow> nat \<Rightarrow> rxmatch \<Rightarrow> documentSymbol list \<Rightarrow> documentSymbol list result" where
  "localVarStep text procBody procBodyStartOffset varMatch cs =
     (let varName = matchGroup procBody varMatch 1 in
      if list_ex (\<lambda>child. name child = varName) cs then Some (Inr cs)
      else bindR (validated (localVarSymbol text procBody procBodyStartOffset varMatch))
             (\<lambda>varSymbol. Some (Inr (cs @ [varSymbol]))))"

definition arraySymbol :: "string \<Rightarrow> string \<Rightarrow> nat \<Rightarrow> rxmatch \<Rightarrow> documentSymbol" where
  "arraySymbol text procBody procBodyStartOffset arrayMatch =
     (let arrayName = matchGroup procBody arrayMatch 1;
          startPos = positionAt text (procBodyStartOffset + index arrayMatch);
          endPos = positionAt text (procBodyStartOffset + index arrayMatch + matchLength arrayMatch);
          r = Range startPos endPos
      in DocumentSymbol arrayName ''array'' Array r r [])"

definition arraySetStep ::
  "string \<Rightarrow> string \<Rightarrow> nat \<Rightarrow> rxmatch \<Rightarrow> documentSymbol list \<Rightarrow> documentSymbol list result" where
  "arraySetStep text procBody procBodyStartOffset arrayMatch cs =
     bindR (validated (arraySymbol text procBody procBodyStartOffset arrayMatch))
       (\<lambda>arraySymbol. Some (Inr (cs @ [arraySymbol])))"

definition processLocalVariables ::
  "string \<Rightarrow> string \<Rightarrow> nat \<Rightarrow> documentSymbol list \<Rightarrow> documentSymbol list result" where
  \<comment> \<open>The last argument and the result are \<open>procSymbol.children\<close>.\<close>
  "processLocalVariables text procBody procBodyStartOffset cs =
     (case execAll True localVarRegex procBody 0 of
        None \<Rightarrow> None
      | Some varMatches \<Rightarrow>
          bindR (foldR (localVarStep text procBody procBodyStartOffset) varMatches cs)
            (\<lambda>cs'. case execAll True arraySetRegex procBody 0 of
                     None \<Rightarrow> None
                   | Some arrayMatches \<Rightarrow>
                       foldR (arraySetStep text procBody procBodyStartOffset) arrayMatches cs'))"

subsection \<open>Procedures\<close>

definition procedureSymbol :: "string \<Rightarrow> string \<Rightarrow> string \<Rightarrow> nat \<Rightarrow> nat \<Rightarrow> documentSymbol result" where
  \<comment> \<open>The part that \<open>processProcedures\<close> and \<open>processNamespaceProcedures\<close> share word for
      word: from the name, the argument text, the offset of the match and the offset of
      the brace that opens the body, the symbol with its local variables.\<close>
  "procedureSymbol text procName args matchStart procBodyStart =
     (let startPos = positionAt text matchStart;
          procEndIndex = findMatchingBrace text (int procBodyStart);
          endPos = ifTruthy procEndIndex (\<lambda>e. positionAt text (e + 1)) (lineEnd text (line startPos));
          r = Range startPos endPos;
          sel = Range startPos (lineEnd text (line startPos))
      in bindR (validated (DocumentSymbol procName (if args \<noteq> [] then ''args: '' @ args else [])
                             Function r sel []))
           (\<lambda>procSymbol.
              ifTruthy procEndIndex
                (\<lambda>e. bindR (processLocalVariables text (substring text (procBodyStart + 1) e)
                               (procBodyStart + 1) [])
                        (\<lambda>cs. Some (Inr (withChildren procSymbol cs))))
                (Some (Inr procSymbol))))"

definition nsProcRegex :: re where
  \<comment> \<open>\<open>/proc\s+(\w+)\s*{([^}]*)}\s*{/gm\<close>\<close>
  "nsProcRegex =
     seqs [Lit ''proc'', ws1, Grp 1 word1, ws0, Lit ''{'', Grp 2 notClose0, Lit ''}'', ws0, Lit ''{'']"

definition nsProcStep ::
  "string \<Rightarrow> string \<Rightarrow> nat \<Rightarrow> rxmatch \<Rightarrow> documentSymbol list \<Rightarrow> documentSymbol list result" where
  "nsProcStep text nsContent nsContentStartOffset procMatch cs =
     (let procName = matchGroup nsContent procMatch 1;
          args = trim (matchGroup nsContent procMatch 2);
          procBodyStart = nsContentStartOffset + index procMatch + matchLength procMatch - 1
      in bindR (procedureSymbol text procName args (nsContentStartOffset + index procMatch) procBodyStart)
           (\<lambda>procSymbol. Some (Inr (cs @ [procSymbol]))))"

definition processNamespaceProcedures ::
  "string \<Rightarrow> string \<Rightarrow> nat \<Rightarrow> documentSymbol list \<Rightarrow> documentSymbol list result" where
  "processNamespaceProcedures text nsContent nsContentStartOffset cs =
     (case execAll True nsProcRegex nsContent 0 of
        None \<Rightarrow> None
      | Some procMatches \<Rightarrow> foldR (nsProcStep text nsContent nsContentStartOffset) procMatches cs)"

subsection \<open>Namespaces\<close>

definition nsVarRegex :: re where
  \<comment> \<open>\<open>/variable\s+(\w+)(?:\s+(.+))?$/gm\<close>\<close>
  "nsVarRegex = seqs [Lit ''variable'', ws1, Grp 1 word1, optional (Seq ws1 (Grp 2 (Plus Dot))), Eol]"

definition nsVarSymbol :: "string \<Rightarrow> string \<Rightarrow> nat \<Rightarrow> rxmatch \<Rightarrow> documentSymbol" where
  "nsVarSymbol text nsContent nsContentStartOffset varMatch =
     (let varName = matchGroup nsContent varMatch 1;
          v = (if matchGroup nsContent varMatch 2 \<noteq> [] then trim (matchGroup nsContent varMatch 2) else []);
          startPos = positionAt text (nsContentStartOffset + index varMatch);
          endPos = positionAt text (nsContentStartOffset + index varMatch + matchLength varMatch);
          r = Range startPos endPos
      in DocumentSymbol varName (if v \<noteq> [] then valueDetail v else ''namespace variable'')
           Variable r r [])"

definition nsVarStep ::
  "string \<Rightarrow> string \<Rightarrow> nat \<Rightarrow> rxmatch \<Rightarrow> documentSymbol list \<Rightarrow> documentSymbol list result" where
  "nsVarStep text nsContent nsContentStartOffset varMatch cs =
     bindR (validated (nsVarSymbol text nsContent nsContentStartOffset varMatch))
       (\<lambda>varSymbol. Some (Inr (cs @ [varSymbol])))"

definition processNamespaceVariables ::
  "string \<Rightarrow> string \<Rightarrow> nat \<Rightarrow> documentSymbol list \<Rightarrow> documentSymbol list result" where
  "processNamespaceVariables text nsContent nsContentStartOffset cs =
     (case execAll True nsVarRegex nsContent 0 of
        None \<Rightarrow> None
      | Some varMatches \<Rightarrow> foldR (nsVarStep text nsContent nsContentStartOffset) varMatches cs)"

definition nsRegex :: re where
  \<comment> \<open>\<open>/^namespace\s+eval\s+(\w+)(?:\s*{([\s\S]*?)^}|\s+([^{]+))/gm\<close>\<close>
  "nsRegex =
     seqs [Bol, Lit ''namespace'', ws1, Lit ''eval'', ws1, Grp 1 word1,
           Alt (seqs [ws0, Lit ''{'', Grp 2 (LazyStar (OneOf [Sp, NonSp])), Bol, Lit ''}''])
               (seqs [ws1, Grp 3 (Plus (NoneOf [Ch CHR ''{'']))])]"

text \<open>
  \<open>namespaceMap\<close> maps a name to the symbol object that was also pushed on \<open>symbols\<close>;
  a later \<open>namespaceMap.get(ns).children.push(...)\<close> changes that shared object. Every
  namespace symbol is pushed at the top level, where nothing is ever removed, so the
  object is identified by its index in \<open>symbols\<close>.
\<close>

type_synonym outline = "documentSymbol list \<times> (string \<rightharpoonup> nat)"

definition nsStep :: "string \<Rightarrow> rxmatch \<Rightarrow> outline \<Rightarrow> outline result" where
  "nsStep text nsMatch st =
     (let (symbols, namespaceMap) = st;
          nsName = matchGroup text nsMatch 1;
          startPos = positionAt text (index nsMatch);
          bracePos = int (index nsMatch) + indexOf (matchText text nsMatch) ''{'';
          nsEndMatch = findMatchingBrace text bracePos;
          endPos = ifTruthy nsEndMatch (\<lambda>e. positionAt text (e + 1)) (lineEnd text (line startPos));
          r = Range startPos endPos;
          nsContent = matchGroup text nsMatch 2
      in bindR (validated (DocumentSymbol nsName ''namespace'' Namespace r
                             (Range startPos (lineEnd text (line startPos))) []))
           (\<lambda>nsSymbol.
              bindR (processNamespaceVariables text nsContent (nat (bracePos + 1)) [])
                (\<lambda>cs. bindR (processNamespaceProcedures text nsContent (nat (bracePos + 1)) cs)
                   (\<lambda>cs'. Some (Inr (symbols @ [withChildren nsSymbol cs'],
                                      namespaceMap(nsName \<mapsto> length symbols)))))))"

definition processNamespaces :: "string \<Rightarrow> outline \<Rightarrow> outline result" where
  "processNamespaces text st =
     (case execAll True nsRegex text 0 of
        None \<Rightarrow> None
      | Some nsMatches \<Rightarrow> foldR (nsStep text) nsMatches st)"

subsection \<open>Global procedures and variables\<close>

definition procRegex :: re where
  \<comment> \<open>\<open>/^proc\s+([^:\s]+::)?(\w+)\s*{([^}]*)}\s*{/gm\<close>\<close>
  "procRegex =
     seqs [Bol, Lit ''proc'', ws1,
           optional (Grp 1 (Seq (Plus (NoneOf [Ch CHR '':'', Sp])) (Lit ''::''))),
           Grp 2 word1, ws0, Lit ''{'', Grp 3 notClose0, Lit ''}'', ws0, Lit ''{'']"

definition procStep :: "string \<Rightarrow> rxmatch \<Rightarrow> outline \<Rightarrow> outline result" where
  "procStep text procMatch st =
     (let (symbols, namespaceMap) = st;
          g1 = matchGroup text procMatch 1;
          namespace = (if g1 \<noteq> [] then take (length g1 - 2) g1 else []);
          procName = matchGroup text procMatch 2;
          args = trim (matchGroup text procMatch 3);
          procBodyStart = index procMatch + matchLength procMatch - 1
      in bindR (procedureSymbol text procName args (index procMatch) procBodyStart)
           (\<lambda>procSymbol.
              case (if namespace \<noteq> [] then namespaceMap namespace else None) of
                Some i \<Rightarrow> Some (Inr (symbols[i := pushChild (symbols ! i) procSymbol], namespaceMap))
              | None \<Rightarrow> Some (Inr (symbols @ [procSymbol], namespaceMap))))"

definition processProcedures :: "string \<Rightarrow> outline \<Rightarrow> outline result" where
  "processProcedures text st =
     (case execAll True procRegex text 0 of
        None \<Rightarrow> None
      | Some procMatches \<Rightarrow> foldR (procStep text) procMatches st)"

definition globalVarRegex :: re where
  \<comment> \<open>\<open>/^set\s+::(\w+)\s+(.+)$/gm\<close>\<close>
  "globalVarRegex = seqs [Bol, Lit ''set'', ws1, Lit ''::'', Grp 1 word1, ws1, Grp 2 (Plus Dot), Eol]"

definition globalVarSymbol :: "string \<Rightarrow> rxmatch \<Rightarrow> documentSymbol" where
  "globalVarSymbol text varMatch =
     (let varName = matchGroup text varMatch 1;
          v = trim (matchGroup text varMatch 2);
          startPos = positionAt text (index varMatch);
          endPos = positionAt text (index varMatch + matchLength varMatch);
          r = Range startPos endPos
      in DocumentSymbol varName (valueDetail v) Variable r r [])"

definition globalVarStep :: "string \<Rightarrow> rxmatch \<Rightarrow> documentSymbol list \<Rightarrow> documentSymbol list result" where
  "globalVarStep text varMatch symbols =
     bindR (validated (globalVarSymbol text varMatch))
       (\<lambda>varSymbol. Some (Inr (symbols @ [varSymbol])))"

definition processGlobalVariables :: "string \<Rightarrow> documentSymbol list \<Rightarrow> documentSymbol list result" where
  "processGlobalVariables text symbols =
     (case execAll True globalVarRegex text 0 of
        None \<Rightarrow> None
      | Some varMatches \<Rightarrow> foldR (globalVarStep text) varMatches symbols)"

subsection \<open>Control blocks\<close>

text \<open>
  \<open>findEnclosingSymbol\<close> returns a reference to a symbol of the tree, to which the caller
  then pushes a child. The reference is modelled by the path of child indices that leads
  to the symbol.
\<close>

fun findEnclosingSymbol :: "range \<Rightarrow> documentSymbol list \<Rightarrow> nat list option" where
  "findEnclosingSymbol r [] = None"
| "findEnclosingSymbol r (DocumentSymbol n d k sr sel cs # symbols) =
     (if containsRange sr r then
        (case findEnclosingSymbol r cs of
           Some child \<Rightarrow> Some (0 # child)
         | None \<Rightarrow> Some [0])
      else
        (case findEnclosingSymbol r symbols of
           Some (i # p) \<Rightarrow> Some (Suc i # p)
         | _ \<Rightarrow> None))"

fun pushChildAt :: "nat list \<Rightarrow> documentSymbol \<Rightarrow> documentSymbol list \<Rightarrow> documentSymbol list" where
  "pushChildAt [] c symbols = symbols"
| "pushChildAt [i] c symbols = symbols[i := pushChild (symbols ! i) c]"
| "pushChildAt (i # j # p) c symbols =
     symbols[i := withChildren (symbols ! i) (pushChildAt (j # p) c (children (symbols ! i)))]"

definition controlRegex :: re where
  \<comment> \<open>\<open>/\b(if|elseif|else|foreach|for|while|switch|catch)\b[^{]*{.*/gm\<close>\<close>
  "controlRegex =
     seqs [WordB,
           Grp 1 (Alt (Lit ''if'') (Alt (Lit ''elseif'') (Alt (Lit ''else'') (Alt (Lit ''foreach'')
                 (Alt (Lit ''for'') (Alt (Lit ''while'') (Alt (Lit ''switch'') (Lit ''catch'')))))))),
           WordB, Star (NoneOf [Ch CHR ''{'']), Lit ''{'', Star Dot]"

definition controlSymbolOf :: "string \<Rightarrow> rxmatch \<Rightarrow> documentSymbol option" where
  \<comment> \<open>The object that the loop body builds from a match, before it is validated, or
      \<open>None\<close> where the loop body says \<open>continue\<close>.\<close>
  "controlSymbolOf text m =
     (let keyword = matchGroup text m 1;
          openBracePos = int (index m) + lastIndexOf (matchText text m) CHR ''{''
      in case findMatchingBrace text openBracePos of
           None \<Rightarrow> None
         | Some closeBracePos \<Rightarrow>
             (let startPos = positionAt text (index m);
                  endPos = positionAt text (closeBracePos + 1);
                  r = Range startPos endPos
              in if line endPos = line startPos then None
                 else Some (DocumentSymbol keyword (keyword @ '' block'') Object r
                              (Range startPos (lineEnd text (line startPos))) [])))"

definition controlStep :: "string \<Rightarrow> rxmatch \<Rightarrow> documentSymbol list \<Rightarrow> documentSymbol list result" where
  "controlStep text m symbols =
     (case controlSymbolOf text m of
        None \<Rightarrow> Some (Inr symbols)
      | Some c \<Rightarrow>
          bindR (validated c)
            (\<lambda>controlSymbol.
               case findEnclosingSymbol (symRange controlSymbol) symbols of
                 Some parent \<Rightarrow> Some (Inr (pushChildAt parent controlSymbol symbols))
               | None \<Rightarrow> Some (Inr (symbols @ [controlSymbol]))))"

definition processControlBlocks :: "string \<Rightarrow> documentSymbol list \<Rightarrow> documentSymbol list result" where
  "processControlBlocks text symbols =
     (case execAll True controlRegex text 0 of
        None \<Rightarrow> None
      | Some ms \<Rightarrow> foldR (controlStep text) ms symbols)"

definition provideDocumentSymbols :: "string \<Rightarrow> documentSymbol list result" where
  "provideDocumentSymbols text =
     bindR (processNamespaces text ([], Map.empty))
       (\<lambda>st1. bindR (processProcedures text st1)
          (\<lambda>(symbols2, namespaceMap).
             bindR (processGlobalVariables text symbols2)
               (\<lambda>symbols3. processControlBlocks text symbols3)))"


section \<open>Go to definition\<close>

text \<open>
  A location is a document's URI with a range. The workspace is the list of the
  documents that \<open>findFiles('**/*.tcl')\<close> and \<open>openTextDocument\<close> deliver, in the order of
  \<open>findFiles\<close>. The patterns of this provider are built at run time around a name; the
  name is a run of word characters and colons (see \<open>wordRangeAt\<close>), so that it stands
  for itself in the pattern.
\<close>

definition locationOf :: "textDocument \<Rightarrow> nat \<Rightarrow> nat \<Rightarrow> location" where
  \<comment> \<open>\<open>new Location(doc.uri, new Range(doc.positionAt(a), doc.positionAt(b)))\<close>\<close>
  "locationOf doc a b = (uri doc, Range (positionAt (content doc) a) (positionAt (content doc) b))"

definition blockLocation :: "textDocument \<Rightarrow> nat \<Rightarrow> nat \<Rightarrow> location" where
  \<comment> \<open>The range that four lookups build alike: from the match to just after the brace
      that closes the body, or to the end of the line of the match.\<close>
  "blockLocation doc matchStart bodyStart =
     (let text = content doc;
          startPos = positionAt text matchStart;
          bodyEnd = findMatchingBrace text (int bodyStart);
          endPos = ifTruthy bodyEnd (\<lambda>e. positionAt text (e + 1)) (lineEnd text (line startPos))
      in (uri doc, Range startPos endPos))"

definition procDefRegex :: "string \<Rightarrow> re" where
  \<comment> \<open>\<open>new RegExp(`proc\\s+${procName}\\s*{`, 'gm')\<close>\<close>
  "procDefRegex procName = seqs [Lit ''proc'', ws1, Lit procName, ws0, Lit ''{'']"

definition nsDefRegex :: "string \<Rightarrow> re" where
  \<comment> \<open>\<open>new RegExp(`namespace\\s+eval\\s+${nsName}\\s*{`, 'gm')\<close>\<close>
  "nsDefRegex nsName = seqs [Lit ''namespace'', ws1, Lit ''eval'', ws1, Lit nsName, ws0, Lit ''{'']"

definition setRegex :: "string \<Rightarrow> re" where
  \<comment> \<open>\<open>new RegExp(`set\\s+${varBaseName}\\s+`, 'gm')\<close>\<close>
  "setRegex varBaseName = seqs [Lit ''set'', ws1, Lit varBaseName, ws1]"

definition globalRegex :: "string \<Rightarrow> re" where
  \<comment> \<open>\<open>new RegExp(`set\\s+::${globalName}\\s+`, 'gm')\<close>\<close>
  "globalRegex globalName = seqs [Lit ''set'', ws1, Lit ''::'', Lit globalName, ws1]"

definition variableRegex :: "string \<Rightarrow> re" where
  \<comment> \<open>\<open>new RegExp(`variable\\s+${varBaseName}(?:\\s+|$)`, 'gm')\<close>\<close>
  "variableRegex varBaseName = seqs [Lit ''variable'', ws1, Lit varBaseName, Alt ws1 Eol]"

definition workspaceProcRegex :: "string \<Rightarrow> re" where
  \<comment> \<open>\<open>new RegExp(`proc\\s+(${cleanSymbol}|[\\w:]+::${cleanSymbol})\\s*{`, 'gm')\<close>\<close>
  "workspaceProcRegex cleanSymbol =
     seqs [Lit ''proc'', ws1,
           Grp 1 (Alt (Lit cleanSymbol)
                      (seqs [Plus (OneOf [Wd, Ch CHR '':'']), Lit ''::'', Lit cleanSymbol])),
           ws0, Lit ''{'']"

definition containingProcRegex :: re where
  \<comment> \<open>\<open>/proc\s+(\w+|[\w:]+::[\w:]+)\s*{[^}]*}\s*{/g\<close>\<close>
  "containingProcRegex =
     seqs [Lit ''proc'', ws1,
           Grp 1 (Alt word1
                      (seqs [Plus (OneOf [Wd, Ch CHR '':'']), Lit ''::'', Plus (OneOf [Wd, Ch CHR '':''])])),
           ws0, Lit ''{'', notClose0, Lit ''}'', ws0, Lit ''{'']"

subsection \<open>Search in the workspace\<close>

definition searchInFile :: "string \<Rightarrow> string \<Rightarrow> textDocument \<Rightarrow> location option" where
  \<comment> \<open>The body of the loop over the files of \<open>searchInWorkspace\<close>.\<close>
  "searchInFile symbolName cleanSymbol doc =
     (let text = content doc in
      case exec True (workspaceProcRegex cleanSymbol) text of
        Some m \<Rightarrow>
          (let m0 = matchText text m;
               procBodyStart = int (index m) + indexOfFrom m0 ''{'' (nat (indexOf m0 ''}'' + 1));
               startPos = positionAt text (index m);
               procBodyEnd = findMatchingBrace text procBodyStart;
               endPos = ifTruthy procBodyEnd (\<lambda>e. positionAt text (e + 1)) (lineEnd text (line startPos))
           in Some (uri doc, Range startPos endPos))
      | None \<Rightarrow>
          (if \<not> includesStr symbolName ''::'' then
             (case exec True (nsDefRegex symbolName) text of
                Some m \<Rightarrow> Some (blockLocation doc (index m) (index m + matchLength m - 1))
              | None \<Rightarrow> None)
           else None))"

fun searchInFiles :: "string \<Rightarrow> string \<Rightarrow> textDocument list \<Rightarrow> location option" where
  "searchInFiles symbolName cleanSymbol [] = None"
| "searchInFiles symbolName cleanSymbol (doc # files) =
     (case searchInFile symbolName cleanSymbol doc of
        Some l \<Rightarrow> Some l
      | None \<Rightarrow> searchInFiles symbolName cleanSymbol files)"

definition searchInWorkspace :: "textDocument list \<Rightarrow> string \<Rightarrow> location option" where
  "searchInWorkspace files symbolName =
     searchInFiles symbolName (removeAll2 symbolName ''::'') files"

subsection \<open>Procedures, namespaces and qualified names\<close>

definition findProcedureDefinition :: "textDocument \<Rightarrow> string \<Rightarrow> location option" where
  "findProcedureDefinition doc procName =
     (case exec True (procDefRegex procName) (content doc) of
        Some m \<Rightarrow> Some (blockLocation doc (index m) (index m + matchLength m - 1))
      | None \<Rightarrow> None)"

definition findNamespaceDefinition :: "textDocument \<Rightarrow> string \<Rightarrow> location option" where
  "findNamespaceDefinition doc nsName =
     (case exec True (nsDefRegex nsName) (content doc) of
        Some m \<Rightarrow> Some (blockLocation doc (index m) (index m + matchLength m - 1))
      | None \<Rightarrow> None)"

definition namespaceBody :: "string \<Rightarrow> string \<Rightarrow> (nat \<times> nat) option" where
  \<comment> \<open>The first lines of \<open>findNamespaceQualifiedDefinition\<close>: the offsets
      \<open>(nsBodyStart, nsBodyEnd)\<close> of the braces around the body of the first
      \<open>namespace eval\<close> of that name, when the closing brace is found.\<close>
  "namespaceBody text namespace =
     (case exec True (nsDefRegex namespace) text of
        None \<Rightarrow> None
      | Some m \<Rightarrow>
          (let nsBodyStart = index m + matchLength m - 1 in
           ifTruthy (findMatchingBrace text (int nsBodyStart))
             (\<lambda>nsBodyEnd. Some (nsBodyStart, nsBodyEnd)) None))"

definition findNamespaceQualifiedDefinition ::
  "textDocument \<Rightarrow> textDocument list \<Rightarrow> string \<Rightarrow> location option" where
  "findNamespaceQualifiedDefinition doc files qualifiedName =
     (let parts = split qualifiedName ''::'';
          namespace = join (butlast parts) ''::'';
          symbol = last parts;
          text = content doc
      in case namespaceBody text namespace of
           None \<Rightarrow> searchInWorkspace files qualifiedName
         | Some (nsBodyStart, nsBodyEnd) \<Rightarrow>
             (let nsBody = substring text (nsBodyStart + 1) nsBodyEnd in
              case exec True (procDefRegex symbol) nsBody of
                Some procMatch \<Rightarrow>
                  Some (blockLocation doc (nsBodyStart + 1 + index procMatch)
                          (nsBodyStart + 1 + index procMatch + matchLength procMatch - 1))
              | None \<Rightarrow>
                  (case exec True (variableRegex symbol) nsBody of
                     Some varMatch \<Rightarrow>
                       Some (locationOf doc (nsBodyStart + 1 + index varMatch)
                               (nsBodyStart + 1 + index varMatch + matchLength varMatch))
                   | None \<Rightarrow> searchInWorkspace files qualifiedName)))"

subsection \<open>Variables\<close>

definition containingStep :: "string \<Rightarrow> position \<Rightarrow> rxmatch \<Rightarrow> range option \<Rightarrow> range option" where
  "containingStep text position m bestProcRange =
     (let procStart = index m;
          procBodyStart = index m + matchLength m - 1
      in ifTruthy (findMatchingBrace text (int procBodyStart))
           (\<lambda>procBodyEnd.
              (let procRange = Range (positionAt text procStart) (positionAt text (procBodyEnd + 1)) in
               if containsPosition procRange position then
                 (case bestProcRange of
                    None \<Rightarrow> Some procRange
                  | Some best \<Rightarrow>
                      if isBefore (end_pos procRange) (end_pos best) \<and>
                         isAfter (start_pos procRange) (start_pos best)
                      then Some procRange else bestProcRange)
               else bestProcRange))
           bestProcRange)"

definition getContainingProcedureRange :: "string \<Rightarrow> position \<Rightarrow> range option option" where
  \<comment> \<open>The outer \<open>None\<close>: the loop does not terminate.\<close>
  "getContainingProcedureRange text position =
     map_option (\<lambda>ms. fold (containingStep text position) ms None)
       (execAll False containingProcRegex text 0)"

definition findInScope :: "textDocument \<Rightarrow> string \<Rightarrow> range \<Rightarrow> location option" where
  \<comment> \<open>The block \<open>if (containingProcRange) { ... }\<close> of \<open>findVariableDefinition\<close>.\<close>
  "findInScope doc varBaseName containingProcRange =
     (let text = content doc;
          procText = getTextIn text containingProcRange;
          base = offsetAt text (start_pos containingProcRange)
      in case exec True (setRegex varBaseName) procText of
           Some localMatch \<Rightarrow>
             Some (locationOf doc (base + index localMatch)
                     (base + index localMatch + matchLength localMatch + 1))
         | None \<Rightarrow>
             (case exec True (variableRegex varBaseName) procText of
                Some localMatch \<Rightarrow>
                  Some (locationOf doc (base + index localMatch)
                          (base + index localMatch + matchLength localMatch))
              | None \<Rightarrow> None))"

definition findInDocument :: "textDocument \<Rightarrow> string \<Rightarrow> location option" where
  \<comment> \<open>The last part of \<open>findVariableDefinition\<close>, from
      \<open>// If not found in local context, look in the document\<close> to the final
      \<open>return null\<close>.\<close>
  "findInDocument doc varBaseName =
     (let text = content doc in
      case exec True (setRegex varBaseName) text of
        Some m \<Rightarrow> Some (locationOf doc (index m) (index m + matchLength m + 1))
      | None \<Rightarrow>
          (case exec True (variableRegex varBaseName) text of
             Some m \<Rightarrow> Some (locationOf doc (index m) (index m + matchLength m))
           | None \<Rightarrow> None))"

definition findGlobal :: "textDocument \<Rightarrow> string \<Rightarrow> location option" where
  \<comment> \<open>The block \<open>if (varName.startsWith('::')) { ... }\<close> of \<open>findVariableDefinition\<close>.\<close>
  "findGlobal doc varName =
     (if startsWith varName ''::'' then
        (let text = content doc; globalName = substringFrom varName 2 in
         case exec True (globalRegex globalName) text of
           Some m \<Rightarrow> Some (locationOf doc (index m) (index m + matchLength m + 1))
         | None \<Rightarrow> None)
      else None)"

definition findVariableDefinition ::
  "textDocument \<Rightarrow> string \<Rightarrow> position \<Rightarrow> location option option" where
  \<comment> \<open>The outer \<open>None\<close>: the loop of \<open>getContainingProcedureRange\<close> does not terminate.\<close>
  "findVariableDefinition doc varName position =
     (let text = content doc;
          isArrayRef = includesStr varName ''('';
          varBaseName = (if isArrayRef then substring varName 0 (nat (indexOf varName ''('')) else varName)
      in case findGlobal doc varName of
           Some l \<Rightarrow> Some (Some l)
         | None \<Rightarrow>
             (case getContainingProcedureRange text position of
                None \<Rightarrow> None
              | Some containingProcRange \<Rightarrow>
                  (case (case containingProcRange of
                           Some r \<Rightarrow> findInScope doc varBaseName r
                         | None \<Rightarrow> None) of
                     Some l \<Rightarrow> Some (Some l)
                   | None \<Rightarrow> Some (findInDocument doc varBaseName))))"

subsection \<open>The query\<close>

definition isWordOrColon :: "char \<Rightarrow> bool" where
  "isWordOrColon c = (isWordChar c \<or> c = CHR '':'')"

definition wordRangeAt :: "string \<Rightarrow> position \<Rightarrow> (nat \<times> nat) option" where
  \<comment> \<open>The editor's \<open>document.getWordRangeAtPosition(position, /[\w:]+/)\<close>: the columns of
      the run of word characters and colons that the position lies in or touches.\<close>
  "wordRangeAt text position =
     (let lt = lineText text (line position);
          col = min (character position) (length lt);
          a = col - length (takeWhile isWordOrColon (rev (take col lt)));
          b = col + length (takeWhile isWordOrColon (drop col lt))
      in if a = b then None else Some (a, b))"

fun isVariableReference :: "string \<Rightarrow> nat \<Rightarrow> bool" where
  \<comment> \<open>\<open>for (let i = charPos - 1; i >= 0; i--)\<close>; beyond the end of the line
      \<open>lineText[i]\<close> is \<open>undefined\<close>, which is no \<open>$\<close> and passes the test of
      \<open>/[\w\s()]/\<close>.\<close>
  "isVariableReference lineTxt 0 = False"
| "isVariableReference lineTxt (Suc i) =
     (if i < length lineTxt then
        (if lineTxt ! i = CHR ''$'' then True
         else if \<not> (isWordChar (lineTxt ! i) \<or> isSpace (lineTxt ! i) \<or>
                     lineTxt ! i = CHR ''('' \<or> lineTxt ! i = CHR '')'') then False
         else isVariableReference lineTxt i)
      else isVariableReference lineTxt i)"

definition provideDefinition ::
  "textDocument \<Rightarrow> textDocument list \<Rightarrow> position \<Rightarrow> location option option" where
  \<comment> \<open>The outer \<open>None\<close>: a loop of the query does not terminate; \<open>Some None\<close> is the
      result \<open>null\<close>.\<close>
  "provideDefinition doc files position =
     (let text = content doc in
      case wordRangeAt text position of
        None \<Rightarrow> Some None
      | Some (a, b) \<Rightarrow>
          (let lt = lineText text (line position);
               word = substring lt a b
           in if isVariableReference lt (character position) then
                findVariableDefinition doc word position
              else if includesStr word ''::'' then
                Some (findNamespaceQualifiedDefinition doc files word)
              else
                (case findProcedureDefinition doc word of
                   Some procLocation \<Rightarrow> Some (Some procLocation)
                 | None \<Rightarrow>
                     (case findNamespaceDefinition doc word of
                        Some nsLocation \<Rightarrow> Some (Some nsLocation)
                      | None \<Rightarrow> Some (searchInWorkspace files word)))))"

section \<open>Hover: documentation comments\<close>

function docCommentLoop :: "string \<Rightarrow> int \<Rightarrow> string list \<Rightarrow> string list" where
  "docCommentLoop text currentPos comments =
     (if currentPos \<ge> 0 then
        (let prevLineEnd = lastIndexOfFrom text newline currentPos in
         if prevLineEnd = - 1 then comments
         else
           (let ln = trim (substring text (nat (prevLineEnd + 1)) (nat (currentPos + 1))) in
            if startsWith ln ''#'' then
              docCommentLoop text (prevLineEnd - 1) (trim (substringFrom ln 1) # comments)
            else if ln \<noteq> [] then comments
            else docCommentLoop text (prevLineEnd - 1) comments))
      else comments)"
  by pat_completeness auto


lemma lastIndexUpTo_le: "lastIndexUpTo s c n \<le> int n"
  by (induction n) auto

termination docCommentLoop
proof (relation "measure (\<lambda>(text, currentPos, comments). nat (currentPos + 1))")
  show "wf (measure (\<lambda>(text, currentPos, comments). nat (currentPos + 1)))" by simp
next
  fix tx :: string and currentPos :: int and comments :: "string list" and x ln
  assume "0 \<le> currentPos" "x = lastIndexOfFrom tx newline currentPos"
  then have "x \<le> currentPos"
    using lastIndexUpTo_le[of tx newline "nat currentPos"] by (simp add: lastIndexOfFrom_def)
  with \<open>0 \<le> currentPos\<close>
  show "((tx, x - 1, trim (substringFrom ln 1) # comments), (tx, currentPos, comments))
        \<in> measure (\<lambda>(text, currentPos, comments). nat (currentPos + 1))"
    by simp
next
  fix tx :: string and currentPos :: int and comments :: "string list" and x
  assume "0 \<le> currentPos" "x = lastIndexOfFrom tx newline currentPos"
  then have "x \<le> currentPos"
    using lastIndexUpTo_le[of tx newline "nat currentPos"] by (simp add: lastIndexOfFrom_def)
  with \<open>0 \<le> currentPos\<close>
  show "((tx, x - 1, comments), (tx, currentPos, comments))
        \<in> measure (\<lambda>(text, currentPos, comments). nat (currentPos + 1))"
    by simp
qed

declare docCommentLoop.simps [simp del]

definition extractDocComment :: "string \<Rightarrow> int \<Rightarrow> string" where
  "extractDocComment text symbolPos =
     (let lineStartPos = lastIndexOfFrom text newline (symbolPos - 1) in
      if lineStartPos = - 1 then []
      else join (docCommentLoop text (lineStartPos - 1) []) [newline])"


section \<open>Vocabulary of the specification\<close>

definition Position :: "nat \<Rightarrow> nat \<Rightarrow> position" where
  "Position l c = \<lparr>line = l, character = c\<rparr>"

text \<open>
  The place at which a control block is attached, in the words of the specification: the
  first symbol of the list whose range contains the block, then the first such child of
  it, and so on down to a symbol none of whose children contains the block.
\<close>

fun descends :: "range \<Rightarrow> documentSymbol list \<Rightarrow> nat list \<Rightarrow> bool" where
  "descends r symbols [] = False"
| "descends r symbols (i # p) =
     (i < length symbols \<and> containsRange (symRange (symbols ! i)) r \<and>
      (\<forall>j < i. \<not> containsRange (symRange (symbols ! j)) r) \<and>
      (if p = [] then (\<forall>c \<in> set (children (symbols ! i)). \<not> containsRange (symRange c) r)
       else descends r (children (symbols ! i)) p))"


text \<open>
  What a symbol tree reports, whatever the nesting: name, detail, kind and the two ranges
  of every symbol in it.
\<close>

type_synonym label = "string \<times> string \<times> symbolKind \<times> range \<times> range"

fun labelsOf :: "documentSymbol \<Rightarrow> label list" where
  "labelsOf (DocumentSymbol n d k r s cs) = (n, d, k, r, s) # concat (map labelsOf cs)"

definition allLabels :: "documentSymbol list \<Rightarrow> label list" where
  "allLabels symbols = concat (map labelsOf symbols)"


text \<open>The least number of characters that a match of a pattern consumes.\<close>

fun minLen :: "re \<Rightarrow> nat" where
  "minLen (Lit l) = length l"
| "minLen (Cls k) = 1"
| "minLen (Star k) = 0"
| "minLen (Plus k) = 1"
| "minLen (LazyStar k) = 0"
| "minLen (Seq r1 r2) = minLen r1 + minLen r2"
| "minLen (Alt r1 r2) = min (minLen r1) (minLen r2)"
| "minLen (Grp n r) = minLen r"
| "minLen Bol = 0"
| "minLen Eol = 0"
| "minLen WordB = 0"





text \<open>A pattern (with the flag \<open>m\<close>) matches at an offset of a string.\<close>

definition matchesAt :: "re \<Rightarrow> string \<Rightarrow> nat \<Rightarrow> bool" where
  "matchesAt r s i = (i \<le> length s \<and> rmatch True s r (i, Map.empty) \<noteq> [])"


definition occursIn :: "re \<Rightarrow> string \<Rightarrow> bool" where
  "occursIn r s = (\<exists>i. matchesAt r s i)"


text \<open>The depth counter of a scan that starts at \<open>pos\<close> with the count \<open>c\<close>, before it reads \<open>q\<close>.\<close>

definition runDepth :: "string \<Rightarrow> nat \<Rightarrow> nat \<Rightarrow> nat \<Rightarrow> int" where
  "runDepth s pos c q = int c + sum_list (map braceVal (take (q - pos) (drop pos s)))"


text \<open>The line-bounded span of a declaration at offset \<open>i\<close>: from there to the end of its line.\<close>

definition lineSpan :: "string \<Rightarrow> nat \<Rightarrow> range" where
  "lineSpan text i = Range (positionAt text i) (lineEnd text (line (positionAt text i)))"


text \<open>
  Containment as the outline has it: every child lies inside its parent, except that a
  namespace need not contain the variables and procedures attached to it; the declaration
  span of every symbol lies inside its span, and that of a variable or array is its span.
\<close>

fun wellNested :: "documentSymbol \<Rightarrow> bool" where
  "wellNested (DocumentSymbol n d k r sel cs) =
     ((\<forall>c \<in> set cs. wellNested c \<and>
         (containsRange r (symRange c) \<or> (k = Namespace \<and> kind c \<noteq> Object))) \<and>
      (k = Variable \<or> k = Array \<longrightarrow> sel = r) \<and>
      containsRange r sel)"



definition rootLabel :: "documentSymbol \<Rightarrow> label" where
  "rootLabel s = (name s, detail s, kind s, symRange s, selectionRange s)"







section \<open>Auxiliary notions about patterns\<close>


text \<open>The capture groups of a pattern, and the patterns every match of which binds group
  \<open>n\<close> to a non-empty part of the string.\<close>

fun grps :: "re \<Rightarrow> nat set" where
  "grps (Grp n r) = insert n (grps r)"
| "grps (Seq r1 r2) = grps r1 \<union> grps r2"
| "grps (Alt r1 r2) = grps r1 \<union> grps r2"
| "grps (Lit l) = {}"
| "grps (Cls k) = {}"
| "grps (Star k) = {}"
| "grps (Plus k) = {}"
| "grps (LazyStar k) = {}"
| "grps Bol = {}"
| "grps Eol = {}"
| "grps WordB = {}"

fun bindsGroup :: "nat \<Rightarrow> re \<Rightarrow> bool" where
  "bindsGroup n (Grp k r) = (if k = n then 0 < minLen r else bindsGroup n r)"
| "bindsGroup n (Seq r1 r2) = (bindsGroup n r2 \<or> (bindsGroup n r1 \<and> n \<notin> grps r2))"
| "bindsGroup n (Alt r1 r2) = (bindsGroup n r1 \<and> bindsGroup n r2)"
| "bindsGroup n (Lit l) = False"
| "bindsGroup n (Cls k) = False"
| "bindsGroup n (Star k) = False"
| "bindsGroup n (Plus k) = False"
| "bindsGroup n (LazyStar k) = False"
| "bindsGroup n Bol = False"
| "bindsGroup n Eol = False"
| "bindsGroup n WordB = False"

section \<open>Facts about the brace matcher\<close>

lemma slice_step:
  "a < b \<Longrightarrow> a < length s \<Longrightarrow>
   take (b - a) (drop a s) = s ! a # take (b - Suc a) (drop (Suc a) s)"
  by (metis Cons_nth_drop_Suc Suc_diff_Suc take_Suc_Cons)

lemma slice_snoc:
  "a \<le> b \<Longrightarrow> b < length s \<Longrightarrow>
   take (Suc b - a) (drop a s) = take (b - a) (drop a s) @ [s ! b]"
  by (simp add: Suc_diff_le take_Suc_conv_app_nth)

lemma runDepth_step:
  "int c' = int c + braceVal (s ! pos) \<Longrightarrow> pos < q \<Longrightarrow> pos < length s \<Longrightarrow>
   runDepth s pos c q = runDepth s (Suc pos) c' q"
  by (simp add: runDepth_def slice_step)

lemma runDepth_here:
  "int c' = int c + braceVal (s ! pos) \<Longrightarrow> pos < length s \<Longrightarrow>
   runDepth s pos c (Suc pos) = int c'"
  using slice_step[of pos "Suc pos" s] by (simp add: runDepth_def)

lemma runDepth_snoc:
  "pos \<le> q \<Longrightarrow> q < length s \<Longrightarrow>
   runDepth s pos c (Suc q) = runDepth s pos c q + braceVal (s ! q)"
  by (simp add: runDepth_def slice_snoc)

lemma scanBraces_unfold:
  assumes "pos < length s" "0 < c"
  shows "\<exists>c'. int c' = int c + braceVal (s ! pos) \<and>
           scanBraces s pos c = scanBraces s (pos + 1) c' \<and>
           c' = (if s ! pos = CHR ''{'' then c + 1
                 else if s ! pos = CHR ''}'' then c - 1 else c)"
  using assms by (subst scanBraces.simps) (auto simp: braceVal_def Let_def)

lemma scanBraces_Some:
  "0 < c \<Longrightarrow>
   scanBraces s pos c = Some p \<longleftrightarrow>
     (pos \<le> p \<and> p < length s \<and> runDepth s pos c (Suc p) = 0 \<and>
      (\<forall>q. pos \<le> q \<and> q < p \<longrightarrow> 0 < runDepth s pos c (Suc q)))"
proof (induction s pos c rule: scanBraces.induct)
  case (1 s pos c)
  show ?case
  proof (cases "pos < length s")
    case False
    with 1(2) show ?thesis by (subst scanBraces.simps) auto
  next
    case True
    from scanBraces_unfold[OF True 1(2)] obtain c' where
      c': "int c' = int c + braceVal (s ! pos)" and
      unf: "scanBraces s pos c = scanBraces s (pos + 1) c'" and
      c'_def: "c' = (if s ! pos = CHR ''{'' then c + 1
                 else if s ! pos = CHR ''}'' then c - 1 else c)"
      by blast
    have here: "runDepth s pos c (Suc pos) = int c'"
      using runDepth_here[OF c' True] .
    have later: "runDepth s pos c q = runDepth s (Suc pos) c' q" if "pos < q" for q
      using runDepth_step[OF c' that True] .
    show ?thesis
    proof (cases "c' = 0")
      case z: True
      have "scanBraces s (pos + 1) c' = Some pos"
        using z by (subst scanBraces.simps) simp
      moreover have "(pos \<le> p \<and> p < length s \<and> runDepth s pos c (Suc p) = 0 \<and>
          (\<forall>q. pos \<le> q \<and> q < p \<longrightarrow> 0 < runDepth s pos c (Suc q))) \<longleftrightarrow> p = pos"
        using here z True by (cases "pos < p") (auto simp: not_less)
      ultimately show ?thesis using unf by auto
    next
      case nz: False
      have IH: "scanBraces s (pos + 1) c' = Some p \<longleftrightarrow>
         (pos + 1 \<le> p \<and> p < length s \<and> runDepth s (pos + 1) c' (Suc p) = 0 \<and>
          (\<forall>q. pos + 1 \<le> q \<and> q < p \<longrightarrow> 0 < runDepth s (pos + 1) c' (Suc q)))"
        using 1(1)[OF _ refl] True 1(2) nz unfolding c'_def by simp
      have A: "(\<forall>q. pos \<le> q \<and> q < p \<longrightarrow> 0 < runDepth s pos c (Suc q)) \<longleftrightarrow>
           (\<forall>q. pos + 1 \<le> q \<and> q < p \<longrightarrow> 0 < runDepth s (pos + 1) c' (Suc q))"
      proof
        assume L: "\<forall>q. pos \<le> q \<and> q < p \<longrightarrow> 0 < runDepth s pos c (Suc q)"
        show "\<forall>q. pos + 1 \<le> q \<and> q < p \<longrightarrow> 0 < runDepth s (pos + 1) c' (Suc q)"
        proof (intro allI impI)
          fix q assume "pos + 1 \<le> q \<and> q < p"
          then show "0 < runDepth s (pos + 1) c' (Suc q)"
            using L[rule_format, of q] later[of "Suc q"] by simp
        qed
      next
        assume R: "\<forall>q. pos + 1 \<le> q \<and> q < p \<longrightarrow> 0 < runDepth s (pos + 1) c' (Suc q)"
        show "\<forall>q. pos \<le> q \<and> q < p \<longrightarrow> 0 < runDepth s pos c (Suc q)"
        proof (intro allI impI)
          fix q assume q: "pos \<le> q \<and> q < p"
          show "0 < runDepth s pos c (Suc q)"
          proof (cases "q = pos")
            case True then show ?thesis using here nz by simp
          next
            case False
            then show ?thesis using R[rule_format, of q] later[of "Suc q"] q by simp
          qed
        qed
      qed
      show ?thesis
      proof (cases "pos < p")
        case True
        then show ?thesis using unf IH A later[of "Suc p"] by simp
      next
        case False
        then have "p = pos \<or> p < pos" by auto
        then show ?thesis using unf IH here nz by auto
      qed
    qed
  qed
qed

lemma scanBraces_None:
  "0 < c \<Longrightarrow>
   scanBraces s pos c = None \<longleftrightarrow>
     (\<forall>q. pos \<le> q \<and> q < length s \<longrightarrow> 0 < runDepth s pos c (Suc q))"
proof (induction s pos c rule: scanBraces.induct)
  case (1 s pos c)
  show ?case
  proof (cases "pos < length s")
    case False
    with 1(2) show ?thesis by (subst scanBraces.simps) auto
  next
    case True
    from scanBraces_unfold[OF True 1(2)] obtain c' where
      c': "int c' = int c + braceVal (s ! pos)" and
      unf: "scanBraces s pos c = scanBraces s (pos + 1) c'" and
      c'_def: "c' = (if s ! pos = CHR ''{'' then c + 1
                 else if s ! pos = CHR ''}'' then c - 1 else c)"
      by blast
    have here: "runDepth s pos c (Suc pos) = int c'"
      using runDepth_here[OF c' True] .
    have later: "runDepth s pos c q = runDepth s (Suc pos) c' q" if "pos < q" for q
      using runDepth_step[OF c' that True] .
    show ?thesis
    proof (cases "c' = 0")
      case z: True
      have "scanBraces s (pos + 1) c' = Some pos"
        using z by (subst scanBraces.simps) simp
      then show ?thesis using unf here z True by auto
    next
      case nz: False
      have IH: "scanBraces s (pos + 1) c' = None \<longleftrightarrow>
         (\<forall>q. pos + 1 \<le> q \<and> q < length s \<longrightarrow> 0 < runDepth s (pos + 1) c' (Suc q))"
        using 1(1)[OF _ refl] True 1(2) nz unfolding c'_def by simp
      have "(\<forall>q. pos \<le> q \<and> q < length s \<longrightarrow> 0 < runDepth s pos c (Suc q)) \<longleftrightarrow>
           (\<forall>q. pos + 1 \<le> q \<and> q < length s \<longrightarrow> 0 < runDepth s (pos + 1) c' (Suc q))"
      proof
        assume L: "\<forall>q. pos \<le> q \<and> q < length s \<longrightarrow> 0 < runDepth s pos c (Suc q)"
        show "\<forall>q. pos + 1 \<le> q \<and> q < length s \<longrightarrow> 0 < runDepth s (pos + 1) c' (Suc q)"
        proof (intro allI impI)
          fix q assume "pos + 1 \<le> q \<and> q < length s"
          then show "0 < runDepth s (pos + 1) c' (Suc q)"
            using L[rule_format, of q] later[of "Suc q"] by simp
        qed
      next
        assume R: "\<forall>q. pos + 1 \<le> q \<and> q < length s \<longrightarrow> 0 < runDepth s (pos + 1) c' (Suc q)"
        show "\<forall>q. pos \<le> q \<and> q < length s \<longrightarrow> 0 < runDepth s pos c (Suc q)"
        proof (intro allI impI)
          fix q assume q: "pos \<le> q \<and> q < length s"
          show "0 < runDepth s pos c (Suc q)"
          proof (cases "q = pos")
            case True then show ?thesis using here nz by simp
          next
            case False
            then show ?thesis using R[rule_format, of q] later[of "Suc q"] q by simp
          qed
        qed
      qed
      then show ?thesis using unf IH by simp
    qed
  qed
qed

lemma braceDepth_runDepth: "braceDepth s openPos q = runDepth s (Suc openPos) 1 q"
  by (simp add: braceDepth_def runDepth_def)

lemma braceVal_ge: "- 1 \<le> braceVal c"
  by (simp add: braceVal_def)

lemma braceVal_close: "braceVal c = - 1 \<longleftrightarrow> c = CHR ''}''"
  by (simp add: braceVal_def)

lemma depth_before_close:
  assumes "Suc openPos \<le> p" "p < length s"
    and pos: "\<forall>q. Suc openPos \<le> q \<and> q < p \<longrightarrow> 0 < braceDepth s openPos (Suc q)"
  shows "braceDepth s openPos (Suc p) = 0 \<longleftrightarrow>
         s ! p = CHR ''}'' \<and> braceDepth s openPos p = 1"
proof -
  have snoc: "braceDepth s openPos (Suc p) = braceDepth s openPos p + braceVal (s ! p)"
    using assms(1,2) by (simp add: braceDepth_runDepth runDepth_snoc)
  have before: "0 < braceDepth s openPos p"
  proof (cases "p = Suc openPos")
    case True
    then show ?thesis by (simp add: braceDepth_def)
  next
    case False
    then obtain q where "p = Suc q" "Suc openPos \<le> q" using assms(1)
      by (metis le_neq_implies_less less_imp_Suc_add add_Suc le_add1)
    then show ?thesis using pos by auto
  qed
  show ?thesis
    using snoc before braceVal_ge[of "s ! p"] braceVal_close[of "s ! p"] by auto
qed



section \<open>Facts about matching\<close>

lemma execFrom_Some_iff:
  "execFrom ml r s i = Some m \<longleftrightarrow>
     (i \<le> index m \<and> index m \<le> length s \<and>
      (\<forall>j. i \<le> j \<and> j < index m \<longrightarrow> rmatch ml s r (j, Map.empty) = []) \<and>
      (\<exists>rest. rmatch ml s r (index m, Map.empty) = (mend m, groups m) # rest))"
proof (induction ml r s i rule: execFrom.induct)
  case (1 ml r s i)
  show ?case
  proof (cases "length s < i")
    case True
    then show ?thesis by (subst execFrom.simps) auto
  next
    case False
    show ?thesis
    proof (cases "rmatch ml s r (i, Map.empty)")
      case Nil
      have unf: "execFrom ml r s i = execFrom ml r s (Suc i)"
        using False Nil by (subst execFrom.simps) simp
      have "(\<forall>j. i \<le> j \<and> j < index m \<longrightarrow> rmatch ml s r (j, Map.empty) = []) \<longleftrightarrow>
            (\<forall>j. Suc i \<le> j \<and> j < index m \<longrightarrow> rmatch ml s r (j, Map.empty) = [])"
        using Nil by (metis Suc_leI le_neq_implies_less Suc_leD)
      moreover have "index m \<noteq> i" if "\<exists>rest. rmatch ml s r (index m, Map.empty) = (mend m, groups m) # rest"
        using that Nil by auto
      ultimately show ?thesis
        unfolding unf "1.IH"[OF False Nil]
        by (metis Suc_leD Suc_leI le_neq_implies_less)
    next
      case (Cons x xs)
      obtain e c where x: "x = (e, c)" by (cases x)
      have unf: "execFrom ml r s i = Some \<lparr>index = i, mend = e, groups = c\<rparr>"
        using False Cons x by (subst execFrom.simps) simp
      show ?thesis
      proof
        assume "execFrom ml r s i = Some m"
        then have "m = \<lparr>index = i, mend = e, groups = c\<rparr>" using unf by simp
        then show "i \<le> index m \<and> index m \<le> length s \<and>
          (\<forall>j. i \<le> j \<and> j < index m \<longrightarrow> rmatch ml s r (j, Map.empty) = []) \<and>
          (\<exists>rest. rmatch ml s r (index m, Map.empty) = (mend m, groups m) # rest)"
          using False Cons x by auto
      next
        assume a: "i \<le> index m \<and> index m \<le> length s \<and>
          (\<forall>j. i \<le> j \<and> j < index m \<longrightarrow> rmatch ml s r (j, Map.empty) = []) \<and>
          (\<exists>rest. rmatch ml s r (index m, Map.empty) = (mend m, groups m) # rest)"
        have "index m = i"
        proof (rule ccontr)
          assume "index m \<noteq> i"
          with a have "i < index m" by simp
          with a have "rmatch ml s r (i, Map.empty) = []" by blast
          with Cons show False by simp
        qed
        with a Cons x have "mend m = e" "groups m = c" by auto
        with \<open>index m = i\<close> have "m = \<lparr>index = i, mend = e, groups = c\<rparr>" by simp
        then show "execFrom ml r s i = Some m" using unf by simp
      qed
    qed
  qed
qed

lemma execFrom_None_iff:
  "execFrom ml r s i = None \<longleftrightarrow>
     (\<forall>j. i \<le> j \<and> j \<le> length s \<longrightarrow> rmatch ml s r (j, Map.empty) = [])"
proof (induction ml r s i rule: execFrom.induct)
  case (1 ml r s i)
  show ?case
  proof (cases "length s < i")
    case True
    then show ?thesis by (subst execFrom.simps) auto
  next
    case False
    show ?thesis
    proof (cases "rmatch ml s r (i, Map.empty)")
      case Nil
      have unf: "execFrom ml r s i = execFrom ml r s (Suc i)"
        using False Nil by (subst execFrom.simps) simp
      show ?thesis
        unfolding unf "1.IH"[OF False Nil] using Nil
        by (metis Suc_leD Suc_leI le_neq_implies_less)
    next
      case (Cons x xs)
      obtain e c where x: "x = (e, c)" by (cases x)
      have "execFrom ml r s i = Some \<lparr>index = i, mend = e, groups = c\<rparr>"
        using False Cons x by (subst execFrom.simps) simp
      then show ?thesis using Cons False by (auto simp: not_less)
    qed
  qed
qed

lemma rmatch_minLen:
  "(e, c') \<in> set (rmatch ml s r (i, c)) \<Longrightarrow> i \<le> length s \<Longrightarrow> i + minLen r \<le> e"
proof (induction r arbitrary: i c e c')
  case (Seq r1 r2)
  from Seq.prems(1) obtain m cm where
    m: "(m, cm) \<in> set (rmatch ml s r1 (i, c))" and
    e: "(e, c') \<in> set (rmatch ml s r2 (m, cm))"
    by auto
  from rmatch_bounds[OF m Seq.prems(2)] have ml: "m \<le> length s" by simp
  from Seq.IH(1)[OF m Seq.prems(2)] Seq.IH(2)[OF e ml] show ?case by simp
next
  case (Alt r1 r2)
  then show ?case by fastforce
next
  case (Grp n r)
  from Grp.prems(1) obtain c0 where "(e, c0) \<in> set (rmatch ml s r (i, c))" by auto
  from Grp.IH[OF this Grp.prems(2)] show ?case by simp
qed (auto split: if_splits simp: Let_def)



lemma execAll_Nil:
  "execFrom ml r s i = None \<Longrightarrow> execAll ml r s i = Some []"
  by (subst execAll.simps) simp

lemma execAll_Cons:
  "execFrom ml r s i = Some m \<Longrightarrow> i < mend m \<Longrightarrow>
   execAll ml r s i = map_option ((#) m) (execAll ml r s (mend m))"
  by (subst execAll.simps) simp

lemma execAll_member:
  "execAll ml r s i = Some ms \<Longrightarrow> m \<in> set ms \<Longrightarrow>
   i \<le> index m \<and> index m < mend m \<and> mend m \<le> length s \<and>
   (\<exists>j. execFrom ml r s j = Some m)"
proof (induction ml r s i arbitrary: ms rule: execAll.induct)
  case (1 ml r s lastIndex)
  show ?case
  proof (cases "execFrom ml r s lastIndex")
    case None
    with "1.prems" show ?thesis by (subst (asm) execAll.simps) simp
  next
    case (Some m0)
    from "1.prems"(1) Some have adv: "\<not> mend m0 \<le> lastIndex"
      by (subst (asm) execAll.simps) (auto split: if_splits)
    from "1.prems"(1) Some adv obtain ms' where
      ms': "execAll ml r s (mend m0) = Some ms'" and ms: "ms = m0 # ms'"
      by (subst (asm) execAll.simps) auto
    from execFrom_bounds[OF Some] have b0: "lastIndex \<le> index m0" "index m0 \<le> mend m0" "mend m0 \<le> length s"
      by simp_all
    show ?thesis
    proof (cases "m = m0")
      case True
      have "index m0 < mend m0 \<or> index m0 = mend m0" using b0 by auto
      then show ?thesis
      proof
        assume "index m0 < mend m0"
        then show ?thesis using True b0 Some by auto
      next
        assume eq: "index m0 = mend m0"
        from execFrom_Some_iff[THEN iffD1, OF Some] obtain rest where
          a: "\<forall>j. lastIndex \<le> j \<and> j < index m0 \<longrightarrow> rmatch ml s r (j, Map.empty) = []"
          and b: "rmatch ml s r (index m0, Map.empty) = (mend m0, groups m0) # rest" by blast
        have "execFrom ml r s (mend m0) = Some m0"
          unfolding execFrom_Some_iff using eq b b0 by auto
        then have "execAll ml r s (mend m0) = None"
          by (subst execAll.simps) simp
        with ms' show ?thesis by simp
      qed
    next
      case False
      with "1.prems"(2) ms have "m \<in> set ms'" by simp
      from "1.IH"[OF Some adv ms' this] adv show ?thesis by auto
    qed
  qed
qed



section \<open>Facts about positions\<close>

lemma positionAt_0 [simp]: "positionAt t 0 = \<lparr>line = 0, character = 0\<rparr>"
  by (simp add: positionAt_def)

lemma positionAt_Nil [simp]: "positionAt [] a = \<lparr>line = 0, character = 0\<rparr>"
  by (simp add: positionAt_def)

lemma positionAt_Cons:
  "positionAt (c # cs) (Suc a) =
     (let p = positionAt cs a in
      if c = newline then \<lparr>line = Suc (line p), character = character p\<rparr>
      else \<lparr>line = line p, character = (if line p = 0 then Suc (character p) else character p)\<rparr>)"
proof -
  define xs where "xs = take a cs"
  define n where "n = length (filter (\<lambda>c. c = newline) xs)"
  define k where "k = length (takeWhile (\<lambda>c. c \<noteq> newline) (rev xs))"
  define k' where "k' = length (takeWhile (\<lambda>c. c \<noteq> newline) (rev xs @ [c]))"
  have p: "positionAt cs a = \<lparr>line = n, character = k\<rparr>"
    by (simp add: positionAt_def xs_def n_def k_def Let_def)
  have q: "positionAt (c # cs) (Suc a) =
       \<lparr>line = (if c = newline then Suc n else n), character = k'\<rparr>"
    by (simp add: positionAt_def xs_def n_def k'_def Let_def)
  have k': "k' = (if c \<noteq> newline \<and> n = 0 then Suc k else k)"
  proof (cases "\<forall>x \<in> set xs. x \<noteq> newline")
    case True
    then have tw: "takeWhile (\<lambda>c. c \<noteq> newline) (rev xs) = rev xs"
      by (simp add: takeWhile_eq_all_conv)
    have 1: "k = length xs" unfolding k_def tw by simp
    have tw2: "takeWhile (\<lambda>c. c \<noteq> newline) (rev xs @ [c]) = rev xs @ takeWhile (\<lambda>c. c \<noteq> newline) [c]"
      using True by (simp add: takeWhile_append)
    have 2: "k' = (if c \<noteq> newline then Suc (length xs) else length xs)"
      unfolding k'_def tw2 by simp
    have "filter (\<lambda>c. c = newline) xs = []" using True by (induction xs) auto
    then have 3: "n = 0" by (simp add: n_def)
    show ?thesis using 1 2 3 by simp
  next
    case False
    then have tw2: "takeWhile (\<lambda>c. c \<noteq> newline) (rev xs @ [c]) = takeWhile (\<lambda>c. c \<noteq> newline) (rev xs)"
      by (auto simp: takeWhile_append)
    have 2: "k' = k" unfolding k'_def k_def tw2 by simp
    have "filter (\<lambda>c. c = newline) xs \<noteq> []" using False by (induction xs) auto
    then have 3: "n \<noteq> 0" by (simp add: n_def)
    show ?thesis using 2 3 by simp
  qed
  show ?thesis unfolding p q k' by (simp add: Let_def)
qed

lemma positionAt_ge_length: "length t \<le> a \<Longrightarrow> positionAt t a = positionAt t (length t)"
  by (simp add: positionAt_def)

lemma positionAt_mono:
  "a \<le> b \<Longrightarrow> isBeforeOrEqual (positionAt t a) (positionAt t b)"
proof (induction t arbitrary: a b)
  case Nil
  then show ?case by (simp add: isBeforeOrEqual_def)
next
  case (Cons c cs)
  show ?case
  proof (cases a)
    case 0
    then show ?thesis by (auto simp: isBeforeOrEqual_def)
  next
    case (Suc a')
    with Cons.prems obtain b' where b: "b = Suc b'" "a' \<le> b'" by (cases b) auto
    from Cons.IH[OF b(2)] show ?thesis
      unfolding Suc b(1) positionAt_Cons by (auto simp: isBeforeOrEqual_def Let_def)
  qed
qed

lemma positionAt_strict:
  "a < b \<Longrightarrow> b \<le> length t \<Longrightarrow> isBefore (positionAt t a) (positionAt t b)"
proof (induction t arbitrary: a b)
  case Nil
  then show ?case by simp
next
  case (Cons c cs)
  from Cons.prems obtain b' where b: "b = Suc b'" "b' \<le> length cs" by (cases b) auto
  show ?case
  proof (cases a)
    case 0
    then show ?thesis unfolding b(1) positionAt_Cons
      by (auto simp: isBefore_def Let_def)
  next
    case (Suc a')
    with Cons.prems b have "a' < b'" by simp
    from Cons.IH[OF this b(2)] show ?thesis
      unfolding Suc b(1) positionAt_Cons by (auto simp: isBefore_def Let_def)
  qed
qed

lemma splitLines_nonempty [simp]: "splitLines t \<noteq> []"
  by (induction t) (auto split: list.splits)




lemma isBeforeOrEqual_refl [simp]: "isBeforeOrEqual p p"
  by (simp add: isBeforeOrEqual_def)


lemma isBefore_imp_le: "isBefore p q \<Longrightarrow> isBeforeOrEqual p q"
  by (auto simp: isBefore_def isBeforeOrEqual_def)

lemma not_isBefore: "\<not> isBefore q p \<longleftrightarrow> isBeforeOrEqual p q"
  by (auto simp: isBefore_def isBeforeOrEqual_def)



lemma isBefore_not_le: "isBefore p q \<Longrightarrow> \<not> isBeforeOrEqual q p"
  by (auto simp: isBefore_def isBeforeOrEqual_def)


lemma positionAt_less_iff:
  "a \<le> length t \<Longrightarrow> b \<le> length t \<Longrightarrow>
   isBefore (positionAt t a) (positionAt t b) \<longleftrightarrow> a < b"
  using positionAt_mono[of b a t] positionAt_strict[of a b t] isBefore_not_le
  by (metis not_le_imp_less)


lemma lineStartOffset_0 [simp]: "lineStartOffset t 0 = 0"
  by (simp add: lineStartOffset_def)





section \<open>Facts about the symbol tree\<close>





lemma descends_Nil [simp]: "\<not> descends r [] p"
  by (cases p) auto

declare descends.simps(2) [simp del]









section \<open>Facts about the lookups of a definition\<close>



lemma exec_None_iff: "exec True r s = None \<longleftrightarrow> \<not> occursIn r s"
  unfolding exec_def execFrom_None_iff occursIn_def matchesAt_def by auto


lemma findMatchingBrace_after:
  "findMatchingBrace s (int b) = Some e \<Longrightarrow> b < e \<and> e < length s"
proof -
  assume "findMatchingBrace s (int b) = Some e"
  then have "scanBraces s (Suc b) 1 = Some e" by (simp add: findMatchingBrace_def nat_add_distrib)
  then show ?thesis using scanBraces_Some[of 1 s "Suc b" e] by simp
qed










section \<open>Capture groups\<close>

lemma rmatch_frame:
  "(e, c') \<in> set (rmatch ml s r (i, c)) \<Longrightarrow> n \<notin> grps r \<Longrightarrow> c' n = c n"
proof (induction r arbitrary: i c e c')
  case (Seq r1 r2)
  from Seq.prems(1) obtain m cm where
    m: "(m, cm) \<in> set (rmatch ml s r1 (i, c))" and
    e: "(e, c') \<in> set (rmatch ml s r2 (m, cm))"
    by auto
  from Seq.IH(1)[OF m] Seq.IH(2)[OF e] Seq.prems(2) show ?case by simp
next
  case (Alt r1 r2)
  then show ?case by auto
next
  case (Grp k r)
  from Grp.prems(1) obtain c0 where c0: "(e, c0) \<in> set (rmatch ml s r (i, c))" "c' = c0(k \<mapsto> (i, e))"
    by auto
  from Grp.IH[OF c0(1)] Grp.prems(2) c0(2) show ?case by simp
qed (auto split: if_splits simp: Let_def)

lemma rmatch_binds:
  "bindsGroup n r \<Longrightarrow> (e, c') \<in> set (rmatch ml s r (i, c)) \<Longrightarrow> i \<le> length s \<Longrightarrow>
   \<exists>a b. c' n = Some (a, b) \<and> a < b \<and> b \<le> length s"
proof (induction r arbitrary: i c e c')
  case (Seq r1 r2)
  from Seq.prems(2) obtain m cm where
    m: "(m, cm) \<in> set (rmatch ml s r1 (i, c))" and
    e: "(e, c') \<in> set (rmatch ml s r2 (m, cm))"
    by auto
  from rmatch_bounds[OF m Seq.prems(3)] have ml: "m \<le> length s" by simp
  show ?case
  proof (cases "bindsGroup n r2")
    case True
    from Seq.IH(2)[OF True e ml] show ?thesis .
  next
    case False
    with Seq.prems(1) have b1: "bindsGroup n r1" and fr: "n \<notin> grps r2" by simp_all
    from Seq.IH(1)[OF b1 m Seq.prems(3)] rmatch_frame[OF e fr] show ?thesis by simp
  qed
next
  case (Alt r1 r2)
  then show ?case by auto
next
  case (Grp k r)
  from Grp.prems(2) obtain c0 where c0: "(e, c0) \<in> set (rmatch ml s r (i, c))" "c' = c0(k \<mapsto> (i, e))"
    by auto
  show ?case
  proof (cases "k = n")
    case True
    with Grp.prems(1) have "0 < minLen r" by simp
    with rmatch_minLen[OF c0(1) Grp.prems(3)] have "i < e" by simp
    moreover from rmatch_bounds[OF c0(1) Grp.prems(3)] have "e \<le> length s" by simp
    ultimately show ?thesis using c0(2) True by simp
  next
    case False
    with Grp.prems(1) have "bindsGroup n r" by simp
    from Grp.IH[OF this c0(1) Grp.prems(3)] False c0(2) show ?thesis by simp
  qed
qed simp_all

lemma matchGroup_nonempty:
  assumes "execAll ml r s 0 = Some ms" "m \<in> set ms" "bindsGroup n r"
  shows "matchGroup s m n \<noteq> []"
proof -
  from execAll_member[OF assms(1,2)] obtain j where j: "execFrom ml r s j = Some m" by blast
  from j[unfolded execFrom_Some_iff] have il: "index m \<le> length s" and
    r: "(mend m, groups m) \<in> set (rmatch ml s r (index m, Map.empty))" by auto
  from rmatch_binds[OF assms(3) r il] obtain a b where
    ab: "groups m n = Some (a, b)" "a < b" "b \<le> length s" by blast
  then have "length (matchGroup s m n) = b - a" by (simp add: matchGroup_def substring_def)
  with ab(2) show ?thesis by auto
qed

lemma containsRange_self [simp]: "containsRange (Range a b) (Range a b)"
  by (auto simp: containsRange_def containsPosition_def Range_def isBefore_def isBeforeOrEqual_def)


lemma validated_cases:
  "validated s = Some (Inr s) \<and> name s \<noteq> [] \<and> containsRange (symRange s) (selectionRange s) \<or>
   validated s = Some (Inl NameMustNotBeFalsy) \<and> name s = [] \<or>
   validated s = Some (Inl SelectionRangeNotContained) \<and> name s \<noteq> [] \<and>
     \<not> containsRange (symRange s) (selectionRange s)"
  by (simp add: validated_def)

lemma bindR_Inr [simp]: "bindR (Some (Inr v)) f = f v"
  by (simp add: bindR_def)

lemma bindR_Inl [simp]: "bindR (Some (Inl e)) f = Some (Inl e)"
  by (simp add: bindR_def)

lemma bindR_None [simp]: "bindR None f = None"
  by (simp add: bindR_def)

lemma bindsGroup_patterns:
  "bindsGroup 1 localVarRegex" "bindsGroup 1 arraySetRegex" "bindsGroup 1 nsVarRegex"
  "bindsGroup 1 nsProcRegex" "bindsGroup 1 nsRegex" "bindsGroup 2 procRegex"
  "bindsGroup 1 globalVarRegex" "bindsGroup 1 controlRegex"
  by (simp_all add: localVarRegex_def arraySetRegex_def nsVarRegex_def nsProcRegex_def nsRegex_def
      procRegex_def globalVarRegex_def controlRegex_def ws0_def ws1_def word1_def notClose0_def
      optional_def)


section \<open>Qualified names\<close>















lemma namespaceBody_None:
  "namespaceBody text ns = None \<longleftrightarrow>
     (\<not> occursIn (nsDefRegex ns) text \<or>
      (\<exists>m. exec True (nsDefRegex ns) text = Some m \<and>
           findMatchingBrace text (int (index m + matchLength m - 1)) = None))"
proof (cases "exec True (nsDefRegex ns) text")
  case None
  then show ?thesis using exec_None_iff[of "nsDefRegex ns" "text"] by (simp add: namespaceBody_def)
next
  case (Some m)
  then have o: "occursIn (nsDefRegex ns) text" using exec_None_iff[of "nsDefRegex ns" "text"] by auto
  show ?thesis
  proof (cases "findMatchingBrace text (int (index m + matchLength m - 1))")
    case None
    then show ?thesis using Some o by (simp add: namespaceBody_def Let_def ifTruthy_def)
  next
    case (Some e)
    from findMatchingBrace_after[OF Some] have "e \<noteq> 0" by simp
    then show ?thesis using Some \<open>exec True (nsDefRegex ns) text = Some m\<close> o
      by (simp add: namespaceBody_def Let_def ifTruthy_def)
  qed
qed


section \<open>Procedure spans nest\<close>




lemma runDepth_self [simp]: "runDepth s pos c pos = int c"
  by (simp add: runDepth_def)

































section \<open>Facts about the scan of a procedure body\<close>





lemma name_localVarSymbol [simp]:
  "name (localVarSymbol text procBody off m) = matchGroup procBody m 1"
  by (simp add: localVarSymbol_def Let_def)

lemma kind_localVarSymbol [simp]: "kind (localVarSymbol text procBody off m) = Variable"
  by (simp add: localVarSymbol_def Let_def)

lemma kind_arraySymbol [simp]: "kind (arraySymbol text procBody off m) = Array"
  by (simp add: arraySymbol_def Let_def)








section \<open>Facts about the outline query\<close>









lemma wellNested_leaf:
  "wellNested (DocumentSymbol n d k r r []) \<longleftrightarrow> containsRange r r"
  by simp

lemma lineSpan_contains_self [simp]: "containsRange (lineSpan text i) (lineSpan text i)"
  by (simp add: lineSpan_def)




lemma wellNested_localVarSymbol [simp]: "wellNested (localVarSymbol text procBody off m)"
  by (simp add: localVarSymbol_def Let_def)

lemma wellNested_arraySymbol [simp]: "wellNested (arraySymbol text procBody off m)"
  by (simp add: arraySymbol_def Let_def)






lemma rootLabel_in: "rootLabel s \<in> set (labelsOf s)"
  by (cases s) (simp add: rootLabel_def)

lemma allLabels_append [simp]: "allLabels (xs @ ys) = allLabels xs @ allLabels ys"
  by (simp add: allLabels_def)

lemma allLabels_single [simp]: "allLabels [s] = labelsOf s"
  by (simp add: allLabels_def)

subsection \<open>Children of a namespace\<close>








subsection \<open>Pushing a child\<close>


lemma kind_pushChild [simp]: "kind (pushChild p c) = kind p"
  by (simp add: pushChild_def)

lemma symRange_pushChild [simp]: "symRange (pushChild p c) = symRange p"
  by (simp add: pushChild_def)

lemma kind_withChildren [simp]: "kind (withChildren p cs) = kind p"
  by (simp add: withChildren_def)

lemma symRange_withChildren [simp]: "symRange (withChildren p cs) = symRange p"
  by (simp add: withChildren_def)

lemma pushChildAt_shape:
  "map (\<lambda>s. (symRange s, kind s)) (pushChildAt p c cs) = map (\<lambda>s. (symRange s, kind s)) cs"
proof (cases p)
  case Nil
  then show ?thesis by simp
next
  case (Cons i q)
  show ?thesis
  proof (cases q)
    case Nil
    show ?thesis unfolding Cons Nil
      by (cases "i < length cs") (simp_all add: map_update list_update_same_conv list_update_beyond)
  next
    case (Cons j q')
    show ?thesis unfolding \<open>p = i # q\<close> Cons
      by (cases "i < length cs") (simp_all add: map_update list_update_same_conv list_update_beyond)
  qed
qed

lemma length_pushChildAt [simp]: "length (pushChildAt p c cs) = length cs"
  using arg_cong[OF pushChildAt_shape[of p c cs], of length] by simp






subsection \<open>The phases of the outline query\<close>













lemma control_keyword_nonempty:
  "execAll True controlRegex text 0 = Some ms \<Longrightarrow> m \<in> set ms \<Longrightarrow> matchGroup text m 1 \<noteq> []"
  by (rule matchGroup_nonempty[OF _ _ bindsGroup_patterns(8)])


section \<open>The brace matcher counts depth\<close>

text \<open>
  C1. For every text and every offset \<open>openPos\<close>, the brace matcher returns \<open>p\<close>
  exactly when \<open>p\<close> is the first offset after \<open>openPos\<close> at which the depth counter,
  started at 1, incremented on an opening and decremented on a closing brace, reaches 0:
  the character at \<open>p\<close> is a closing brace, the depth just before it is 1 (braces between
  \<open>openPos\<close> and \<open>p\<close> are balanced) and the depth stays positive before \<open>p\<close>. It
  returns \<open>null\<close> exactly when the depth stays positive up to the end of the text.
\<close>

theorem findMatchingBrace_depth_counting:
  "(findMatchingBrace text (int openPos) = Some p \<longleftrightarrow>
      (openPos < p \<and> p < length text \<and> text ! p = CHR ''}'' \<and>
       braceDepth text openPos p = 1 \<and>
       (\<forall>q. openPos < q \<and> q < p \<longrightarrow> 0 < braceDepth text openPos (Suc q)))) \<and>
   (findMatchingBrace text (int openPos) = None \<longleftrightarrow>
      (\<forall>q. openPos < q \<and> q < length text \<longrightarrow> 0 < braceDepth text openPos (Suc q)))"
proof -
  have start: "nat (int openPos + 1) = Suc openPos" by simp
  have S: "findMatchingBrace text (int openPos) = Some p \<longleftrightarrow>
      (Suc openPos \<le> p \<and> p < length text \<and> braceDepth text openPos (Suc p) = 0 \<and>
       (\<forall>q. Suc openPos \<le> q \<and> q < p \<longrightarrow> 0 < braceDepth text openPos (Suc q)))"
    unfolding findMatchingBrace_def start braceDepth_runDepth
    by (rule scanBraces_Some) simp
  have N: "findMatchingBrace text (int openPos) = None \<longleftrightarrow>
      (\<forall>q. Suc openPos \<le> q \<and> q < length text \<longrightarrow> 0 < braceDepth text openPos (Suc q))"
    unfolding findMatchingBrace_def start braceDepth_runDepth
    by (rule scanBraces_None) simp
  have S': "findMatchingBrace text (int openPos) = Some p \<longleftrightarrow>
      (openPos < p \<and> p < length text \<and> text ! p = CHR ''}'' \<and>
       braceDepth text openPos p = 1 \<and>
       (\<forall>q. openPos < q \<and> q < p \<longrightarrow> 0 < braceDepth text openPos (Suc q)))"
    (is "?L \<longleftrightarrow> ?R")
  proof
    assume ?L
    then have a: "Suc openPos \<le> p" "p < length text" "braceDepth text openPos (Suc p) = 0"
      and b: "\<forall>q. Suc openPos \<le> q \<and> q < p \<longrightarrow> 0 < braceDepth text openPos (Suc q)"
      using S by blast+
    from depth_before_close[OF a(1,2) b] a(3)
    have "text ! p = CHR ''}'' \<and> braceDepth text openPos p = 1" by blast
    with a b show ?R by (simp add: Suc_le_eq)
  next
    assume r: ?R
    then have a: "Suc openPos \<le> p" "p < length text"
      and b: "\<forall>q. Suc openPos \<le> q \<and> q < p \<longrightarrow> 0 < braceDepth text openPos (Suc q)"
      by (simp_all add: Suc_le_eq)
    from depth_before_close[OF a b] r
    have "braceDepth text openPos (Suc p) = 0" by blast
    with a b show ?L using S by blast
  qed
  show ?thesis using S' N by (simp add: Suc_le_eq)
qed

theorem findMatchingBrace_depth_counting_witness:
  "findMatchingBrace ''a{b{c}d}e'' (int 1) = Some 7 \<and>
   ''a{b{c}d}e'' ! 7 = CHR ''}'' \<and>
   braceDepth ''a{b{c}d}e'' 1 7 = 1 \<and>
   findMatchingBrace ''a{b{cd}e'' (int 1) = None"
proof -
  have pos1: "\<forall>q. 1 < q \<and> q < 7 \<longrightarrow> 0 < braceDepth ''a{b{c}d}e'' 1 (Suc q)"
  proof (intro allI impI)
    fix q :: nat assume "1 < q \<and> q < 7"
    then have "q = 2 \<or> q = 3 \<or> q = 4 \<or> q = 5 \<or> q = 6" by auto
    then show "0 < braceDepth ''a{b{c}d}e'' 1 (Suc q)"
      by (auto simp: braceDepth_def braceVal_def)
  qed
  have d: "braceDepth ''a{b{c}d}e'' 1 7 = 1"
    by (simp add: braceDepth_def braceVal_def)
  have c: "''a{b{c}d}e'' ! 7 = CHR ''}''" by simp
  have some: "findMatchingBrace ''a{b{c}d}e'' (int 1) = Some 7"
    using findMatchingBrace_depth_counting[of "''a{b{c}d}e''" 1 7] pos1 d c by simp
  have pos2: "\<forall>q. 1 < q \<and> q < length ''a{b{cd}e'' \<longrightarrow> 0 < braceDepth ''a{b{cd}e'' 1 (Suc q)"
  proof (intro allI impI)
    fix q :: nat assume "1 < q \<and> q < length ''a{b{cd}e''"
    then have "q = 2 \<or> q = 3 \<or> q = 4 \<or> q = 5 \<or> q = 6 \<or> q = 7" by auto
    then show "0 < braceDepth ''a{b{cd}e'' 1 (Suc q)"
      by (auto simp: braceDepth_def braceVal_def)
  qed
  have none: "findMatchingBrace ''a{b{cd}e'' (int 1) = None"
    using findMatchingBrace_depth_counting[of "''a{b{cd}e''" 1 0] pos2 by simp
  show ?thesis using some c d none by simp
qed


section \<open>A qualified name is resolved inside its namespace\<close>




section \<open>A variable is looked up in the innermost procedure first\<close>




section \<open>Containment in the outline\<close>





section \<open>An unmatched brace\<close>




text \<open>
  The exception is real: a procedure that is closed on its declaring line and followed by
  more text there makes the whole query fail.
\<close>

lemma closed_on_the_declaring_line:
  "provideDocumentSymbols ''proc g {} {} ;# one line\<newline>proc h {} {\<newline>}\<newline>'' =
     Some (Inl SelectionRangeNotContained)"
  by code_simp


section \<open>A bare word: procedures, then namespaces, then the workspace\<close>






section \<open>A reference to a global variable\<close>







text \<open>
  Where the document declares nothing for the name, the query answers \<open>null\<close>, whatever
  the workspace holds: \<open>findVariableDefinition\<close> ends in \<open>return null\<close> under its
  comment \<open>If still not found, search in workspace\<close> and never calls \<open>searchInWorkspace\<close>.
  Below, the search in the workspace would answer with a location in the other file.
\<close>

lemma global_variable_lookup_never_reaches_workspace:
  "wordRangeAt ''puts $::gg\<newline>'' (Position 0 6) = Some (6, 10) \<and>
   isVariableReference ''puts $::gg'' 6 \<and>
   searchInWorkspace [\<lparr>uri = ''b.tcl'', content = ''set ::gg 1\<newline>proc gg {} {}\<newline>''\<rparr>] ''::gg'' =
     Some (''b.tcl'', \<lparr>start_pos = Position 1 0, end_pos = Position 1 10\<rparr>) \<and>
   provideDefinition \<lparr>uri = ''a.tcl'', content = ''puts $::gg\<newline>''\<rparr>
     [\<lparr>uri = ''b.tcl'', content = ''set ::gg 1\<newline>proc gg {} {}\<newline>''\<rparr>] (Position 0 6) = Some None"
  by code_simp


section \<open>Local variables are recorded once\<close>





section \<open>Documentation comments before a declaration\<close>

text \<open>
  C9. The hover composer's extraction of the documentation comment, evaluated where the
  comment is the first line of the text: for the text \<open># Adds two numbers\<close>, line
  break, \<open>proc add {a b} {}\<close> and the offset 19 of \<open>proc\<close>, the result is the empty
  string, not \<open>Adds two numbers\<close>. The loop leaves at \<open>prevLineEnd === -1\<close> before it
  has looked at the first line. With one line before the comment the comment is returned.
\<close>

theorem extractDocComment_skips_first_line:
  "extractDocComment ''# Adds two numbers\<newline>proc add {a b} {}'' 19 = [] \<and>
   extractDocComment ''\<newline># Adds two numbers\<newline>proc add {a b} {}'' 20 = ''Adds two numbers''"
  by code_simp


section \<open>Where a control block is attached\<close>





end
